theory Spec2Isabelle
  imports Main "HOL-Library.AList"
begin

section \<open>JavaScript strings\<close>

text \<open>
  A JavaScript string is modelled as a \<open>string\<close> (a list of 8-bit characters) holding its
  UTF-8 bytes. Every pattern the program searches for is ASCII, so \<open>startsWith\<close>,
  \<open>indexOf\<close>, \<open>replace\<close>, \<open>split\<close> and \<open>substring\<close> behave on the bytes as they do on the
  code units. \<open>toLowerCase\<close>, \<open>toUpperCase\<close>, \<open>trim\<close> and the regular expression class
  \<open>\s\<close> are modelled on the ASCII letters and the ASCII white space only.
  Lookups in object literals (\<open>obj[name]\<close>) are own-property lookups: the member names
  inherited from \<open>Object.prototype\<close> are outside the model.
\<close>

abbreviation dquote :: char where "dquote \<equiv> CHR 0x22"
abbreviation backslash :: char where "backslash \<equiv> CHR 0x5C"
abbreviation newline :: char where "newline \<equiv> CHR 0x0A"

text \<open>\<open>s.startsWith(p)\<close>\<close>

fun startsWith :: "string \<Rightarrow> string \<Rightarrow> bool" where
  "startsWith s [] = True"
| "startsWith [] (p # ps) = False"
| "startsWith (c # cs) (p # ps) = (c = p \<and> startsWith cs ps)"

text \<open>\<open>s.indexOf(p) >= 0\<close>\<close>

fun contains :: "string \<Rightarrow> string \<Rightarrow> bool" where
  "contains [] p = (p = [])"
| "contains (c # cs) p = (startsWith (c # cs) p \<or> contains cs p)"

text \<open>\<open>parts.join(sep)\<close>\<close>

fun join :: "string \<Rightarrow> string list \<Rightarrow> string" where
  "join sep [] = []"
| "join sep [x] = x"
| "join sep (x # y # ys) = x @ sep @ join sep (y # ys)"

definition lowerChar :: "char \<Rightarrow> char" where
  "lowerChar c =
     (case map_of (zip ''ABCDEFGHIJKLMNOPQRSTUVWXYZ'' ''abcdefghijklmnopqrstuvwxyz'') c of
        Some d \<Rightarrow> d | None \<Rightarrow> c)"

definition upperChar :: "char \<Rightarrow> char" where
  "upperChar c =
     (case map_of (zip ''abcdefghijklmnopqrstuvwxyz'' ''ABCDEFGHIJKLMNOPQRSTUVWXYZ'') c of
        Some d \<Rightarrow> d | None \<Rightarrow> c)"

definition toLowerCase :: "string \<Rightarrow> string" where
  "toLowerCase s = map lowerChar s"

definition toUpperCase :: "string \<Rightarrow> string" where
  "toUpperCase s = map upperChar s"

text \<open>
  \<open>s.replace(/pat/g, rep)\<close> for a literal, non-empty pattern: the matches are found from
  left to right and do not overlap; the replacement text is not searched again.
\<close>

function replaceAll :: "string \<Rightarrow> string \<Rightarrow> string \<Rightarrow> string" where
  "replaceAll pat rep [] = []"
| "replaceAll pat rep (c # cs) =
     (if pat \<noteq> [] \<and> startsWith (c # cs) pat
      then rep @ replaceAll pat rep (drop (length pat) (c # cs))
      else c # replaceAll pat rep cs)"
  by pat_completeness auto
termination
  by (relation "measure (\<lambda>(pat, rep, s). length s)") (auto simp: neq_Nil_conv)

definition isSpace :: "char \<Rightarrow> bool" where
  "isSpace c = (c \<in> set [CHR 0x09, CHR 0x0A, CHR 0x0B, CHR 0x0C, CHR 0x0D, CHR 0x20])"

text \<open>\<open>s.trim()\<close>\<close>

definition trim :: "string \<Rightarrow> string" where
  "trim s = rev (dropWhile isSpace (rev (dropWhile isSpace s)))"

text \<open>\<open>content.split('\n')\<close>: the empty string gives one empty line.\<close>

fun splitLines :: "string \<Rightarrow> string list" where
  "splitLines [] = [[]]"
| "splitLines (c # cs) =
     (if c = newline then [] # splitLines cs
      else (case splitLines cs of l # ls \<Rightarrow> (c # l) # ls | [] \<Rightarrow> [[c]]))"

section \<open>Actions and mapping tables\<close>

text \<open>
  The action objects of \<open>convertCommand\<close>: \<open>{type: 'insert', text}\<close>,
  \<open>{type: 'wrap', before, after}\<close> and \<open>{type: t, action: name}\<close> for the types
  navigation, selection, delete, clipboard and edit. An action is an object, hence truthy.
\<close>

datatype action =
    Insert string
  | Wrap string string
  | Navigation string
  | Selection string
  | Delete string
  | Clipboard string
  | Edit string

text \<open>
  A JavaScript \<open>Map\<close> from key sequences to actions, as its entries in insertion order.
  \<open>Map.get\<close> is \<open>map_of\<close>; \<open>Map.set\<close> is \<open>AList.update\<close> (an existing key keeps its place
  and takes the new value, a new key is appended); \<open>Map.keys()\<close> is \<open>map fst\<close>.
\<close>

type_synonym table = "(string \<times> action) list"

text \<open>\<open>new Map(entries)\<close>: the entries are set one after the other.\<close>

definition newMap :: "(string \<times> action) list \<Rightarrow> table" where
  "newMap entries = foldl (\<lambda>m (k, v). AList.update k v m) [] entries"

section \<open>The key sequence handler (core/key-sequence-handler.js)\<close>

record event =
  key :: string
  code :: string
  ctrlKey :: bool
  altKey :: bool
  shiftKey :: bool
  metaKey :: bool

text \<open>\<open>navigator.platform.toUpperCase().indexOf('MAC') >= 0\<close>\<close>

definition platformIsMac :: "string \<Rightarrow> bool" where
  "platformIsMac platform = contains (toUpperCase platform) ''MAC''"

definition codeToKey :: "(string \<times> string) list" where
  "codeToKey =
     [(''KeyA'', ''a''), (''KeyB'', ''b''), (''KeyC'', ''c''), (''KeyD'', ''d''), (''KeyE'', ''e''),
      (''KeyF'', ''f''), (''KeyG'', ''g''), (''KeyH'', ''h''), (''KeyI'', ''i''), (''KeyJ'', ''j''),
      (''KeyK'', ''k''), (''KeyL'', ''l''), (''KeyM'', ''m''), (''KeyN'', ''n''), (''KeyO'', ''o''),
      (''KeyP'', ''p''), (''KeyQ'', ''q''), (''KeyR'', ''r''), (''KeyS'', ''s''), (''KeyT'', ''t''),
      (''KeyU'', ''u''), (''KeyV'', ''v''), (''KeyW'', ''w''), (''KeyX'', ''x''), (''KeyY'', ''y''),
      (''KeyZ'', ''z''),
      (''Digit0'', ''0''), (''Digit1'', ''1''), (''Digit2'', ''2''), (''Digit3'', ''3''),
      (''Digit4'', ''4''), (''Digit5'', ''5''), (''Digit6'', ''6''), (''Digit7'', ''7''),
      (''Digit8'', ''8''), (''Digit9'', ''9''),
      (''Space'', ''space'')]"

definition keyNormalizations :: "(string \<times> string) list" where
  "keyNormalizations =
     [('' '', ''space''),
      (''arrowleft'', ''left''),
      (''arrowright'', ''right''),
      (''arrowup'', ''up''),
      (''arrowdown'', ''down''),
      (''pageup'', ''prior''),
      (''pagedown'', ''next'')]"

text \<open>The names a browser gives the arrow and page keys in \<open>event.key\<close>, in lower case.\<close>

abbreviation browserNames :: "string list" where
  "browserNames \<equiv> [''arrowleft'', ''arrowright'', ''arrowup'', ''arrowdown'', ''pageup'', ''pagedown'']"

text \<open>
  \<open>getKeyCombo(event)\<close>: \<open>None\<close> is JavaScript's \<open>null\<close>. The platform string is
  \<open>navigator.platform\<close>.
\<close>

definition getKeyCombo :: "string \<Rightarrow> event \<Rightarrow> string option" where
  "getKeyCombo platform e =
     (let isMac = platformIsMac platform;
          parts = (if ctrlKey e then [''ctrl''] else [])
                @ (if altKey e then [''alt''] else [])
                @ (if shiftKey e then [''shift''] else [])
                @ (if metaKey e then [''meta''] else []);
          key0 = toLowerCase (key e);
          key1 = (if isMac \<and> altKey e \<and> \<not> ctrlKey e \<and> \<not> metaKey e
                  then (case map_of codeToKey (code e) of Some k \<Rightarrow> k | None \<Rightarrow> key0)
                  else key0);
          key2 = (case map_of keyNormalizations key1 of Some k \<Rightarrow> k | None \<Rightarrow> key1)
      in if key2 \<in> set [''control'', ''alt'', ''shift'', ''meta''] then None
         else Some (join ''+'' (parts @ [key2])))"

text \<open>
  The fields of a \<open>KeySequenceHandler\<close>, and the timers it has scheduled with the host
  (\<open>setTimeout\<close>) that have neither fired nor been cleared: \<open>timers\<close> holds the handle and
  the delay of each, \<open>nextTimer\<close> is the next handle the host gives out. Every such timer
  runs the same callback, \<open>clearSequence\<close>. A handle is a positive integer, hence truthy;
  \<open>sequenceTimeout = None\<close> is \<open>null\<close>. The field \<open>mappings\<close> always holds a \<open>Map\<close>: the
  constructor and \<open>setMappings\<close> store nothing else.
\<close>

record handler =
  keySequence :: "string list"
  sequenceTimeout :: "nat option"
  sequenceTimeoutDuration :: int
  mappings :: table
  enabled :: bool
  timers :: "(nat \<times> int) list"
  nextTimer :: nat

definition initial :: handler where
  "initial =
     \<lparr>keySequence = [], sequenceTimeout = None, sequenceTimeoutDuration = 1000,
      mappings = [], enabled = True, timers = [], nextTimer = 1\<rparr>"

text \<open>\<open>clearTimeout(h)\<close> on the host's timers.\<close>

definition clearTimeout :: "nat \<Rightarrow> (nat \<times> int) list \<Rightarrow> (nat \<times> int) list" where
  "clearTimeout h ts = filter (\<lambda>t. fst t \<noteq> h) ts"

definition findMatchingAction :: "handler \<Rightarrow> string \<Rightarrow> action option" where
  "findMatchingAction s sequence = map_of (mappings s) sequence"

definition hasPartialMatch :: "handler \<Rightarrow> string \<Rightarrow> bool" where
  "hasPartialMatch s sequence =
     list_ex (\<lambda>k. startsWith k (sequence @ '' '')) (map fst (mappings s))"

definition clearSequence :: "handler \<Rightarrow> handler" where
  "clearSequence s =
     (case sequenceTimeout s of
        Some h \<Rightarrow> s\<lparr>keySequence := [], timers := clearTimeout h (timers s), sequenceTimeout := None\<rparr>
      | None \<Rightarrow> s\<lparr>keySequence := []\<rparr>)"

text \<open>\<open>if (this.sequenceTimeout) clearTimeout(this.sequenceTimeout)\<close>: the handle is kept.\<close>

definition clearExistingTimeout :: "handler \<Rightarrow> handler" where
  "clearExistingTimeout s =
     (case sequenceTimeout s of
        Some h \<Rightarrow> s\<lparr>timers := clearTimeout h (timers s)\<rparr>
      | None \<Rightarrow> s)"

text \<open>
  The result of \<open>processKeyEvent\<close>: the boolean it returns, the \<open>actionExecute\<close> event it
  emitted (the action and the target element), and the handler afterwards.
  \<open>EventManager.emit\<close> catches what a listener throws. The test \<open>if (!keyCombo)\<close> holds
  for \<open>null\<close> and for the empty string.
\<close>

record 't outcome =
  handled :: bool
  emitted :: "(action \<times> 't) option"
  after :: handler

definition processKeyEvent :: "string \<Rightarrow> event \<Rightarrow> 't \<Rightarrow> handler \<Rightarrow> 't outcome" where
  "processKeyEvent platform e target s =
     (if \<not> enabled s then \<lparr>handled = False, emitted = None, after = s\<rparr>
      else case getKeyCombo platform e of
        None \<Rightarrow> \<lparr>handled = False, emitted = None, after = s\<rparr>
      | Some keyCombo \<Rightarrow>
          if keyCombo = [] then \<lparr>handled = False, emitted = None, after = s\<rparr>
          else
            let s1 = s\<lparr>keySequence := keySequence s @ [keyCombo]\<rparr>;
                s2 = clearExistingTimeout s1;
                fullSequence = join '' '' (keySequence s2)
            in (case findMatchingAction s2 fullSequence of
                  Some a \<Rightarrow>
                    \<lparr>handled = True, emitted = Some (a, target), after = clearSequence s2\<rparr>
                | None \<Rightarrow>
                    if hasPartialMatch s2 fullSequence
                    then \<lparr>handled = True, emitted = None,
                          after = s2\<lparr>sequenceTimeout := Some (nextTimer s2),
                                     timers := timers s2 @ [(nextTimer s2, sequenceTimeoutDuration s2)],
                                     nextTimer := Suc (nextTimer s2)\<rparr>\<rparr>
                    else \<lparr>handled = False, emitted = None, after = clearSequence s2\<rparr>))"

text \<open>The host fires the timer with handle \<open>h\<close>: it leaves the host's table and its callback runs.\<close>

definition timeoutFires :: "nat \<Rightarrow> handler \<Rightarrow> handler" where
  "timeoutFires h s =
     (if h \<in> fst ` set (timers s) then clearSequence (s\<lparr>timers := clearTimeout h (timers s)\<rparr>)
      else s)"

text \<open>The values \<open>setMappings\<close> can be called with.\<close>

datatype mappingsArg =
    ArgMap table
  | ArgObject "(string \<times> action) list"
  | ArgNull
  | ArgUndefined
  | ArgBoolean bool
  | ArgNumber int
  | ArgString string
  | ArgFunction

definition setMappings :: "mappingsArg \<Rightarrow> handler \<Rightarrow> handler" where
  "setMappings arg s =
     (case arg of
        ArgMap m \<Rightarrow> s\<lparr>mappings := m\<rparr>
      | ArgObject entries \<Rightarrow> s\<lparr>mappings := newMap entries\<rparr>
      | _ \<Rightarrow> s\<lparr>mappings := []\<rparr>)"

definition setEnabled :: "bool \<Rightarrow> handler \<Rightarrow> handler" where
  "setEnabled b s = s\<lparr>enabled := b\<rparr>"

definition setSequenceTimeout :: "int \<Rightarrow> handler \<Rightarrow> handler" where
  "setSequenceTimeout duration s = s\<lparr>sequenceTimeoutDuration := duration\<rparr>"

text \<open>The calls a handler receives during its life, and a run of them from a state.\<close>

datatype 't operation =
    ProcessKeyEvent event 't
  | ClearSequence
  | SetMappings mappingsArg
  | SetEnabled bool
  | SetSequenceTimeout int
  | TimeoutFires nat

fun perform :: "string \<Rightarrow> 't operation \<Rightarrow> handler \<Rightarrow> handler" where
  "perform platform (ProcessKeyEvent e target) s = after (processKeyEvent platform e target s)"
| "perform platform ClearSequence s = clearSequence s"
| "perform platform (SetMappings arg) s = setMappings arg s"
| "perform platform (SetEnabled b) s = setEnabled b s"
| "perform platform (SetSequenceTimeout d) s = setSequenceTimeout d s"
| "perform platform (TimeoutFires h) s = timeoutFires h s"

fun run :: "string \<Rightarrow> 't operation list \<Rightarrow> handler \<Rightarrow> handler" where
  "run platform [] s = s"
| "run platform (operation # ops) s = run platform ops (perform platform operation s)"

text \<open>
  A timeout is scheduled exactly when a key sequence is pending, and the handler's handle
  is the only timer the host holds for it.
\<close>

definition timerMatchesSequence :: "handler \<Rightarrow> bool" where
  "timerMatchesSequence s =
     ((sequenceTimeout s = None) = (keySequence s = []) \<and>
      map fst (timers s) = (case sequenceTimeout s of None \<Rightarrow> [] | Some h \<Rightarrow> [h]))"

section \<open>The configuration parser (lyx-parser.js)\<close>

text \<open>
  The \<open>options\<close> object of \<open>parse\<close>: \<open>None\<close> is a property the caller left out, so
  \<open>{}\<close> is the record with both fields \<open>None\<close>.
\<close>

record options =
  overrideSystemShortcuts :: "bool option"
  mapMetaToCtrl :: "bool option"

record rawBinding =
  originalKey :: string
  command :: string

text \<open>
  \<open>typeof navigator !== 'undefined' && navigator.platform.toUpperCase().indexOf('MAC') >= 0\<close>:
  the argument is \<open>navigator.platform\<close>, or \<open>None\<close> where there is no \<open>navigator\<close>.
\<close>

definition isMac :: "string option \<Rightarrow> bool" where
  "isMac navigator = (case navigator of None \<Rightarrow> False | Some platform \<Rightarrow> platformIsMac platform)"

text \<open>
  \<open>.replace(/\+([a-z])$/, '+$1')\<close>: a \<open>+\<close> and a lower-case letter at the very end of the
  string are replaced by the same two characters.
\<close>

definition ensureLowercaseSingle :: "string \<Rightarrow> string" where
  "ensureLowercaseSingle s =
     (case rev s of
        c # p # r \<Rightarrow>
          if p = CHR ''+'' \<and> c \<in> set ''abcdefghijklmnopqrstuvwxyz''
          then rev r @ [CHR ''+'', c] else s
      | _ \<Rightarrow> s)"

text \<open>The chain of key-name replacements, in the order of the source.\<close>

definition keyNames :: "string \<Rightarrow> string" where
  "keyNames s =
     replaceAll ''down'' ''arrowdown''
      (replaceAll ''up'' ''arrowup''
       (replaceAll ''right'' ''arrowright''
        (replaceAll ''left'' ''arrowleft''
         (replaceAll ''end'' ''end''
          (replaceAll ''home'' ''home''
           (replaceAll ''next'' ''pagedown''
            (replaceAll ''prior'' ''pageup''
             (replaceAll ''escape'' ''escape''
              (replaceAll ''tab'' ''tab''
               (replaceAll ''space'' ''space''
                (replaceAll ''delete'' ''delete''
                 (replaceAll ''backspace'' ''backspace''
                  (replaceAll ''return'' ''enter'' s)))))))))))))"

definition normalizeKeySequence :: "string option \<Rightarrow> options \<Rightarrow> string \<Rightarrow> string" where
  "normalizeKeySequence navigator opts sequence =
     (let macMapMetaToCtrl =
            (case mapMetaToCtrl opts of
               Some b \<Rightarrow> b
             | None \<Rightarrow> mapMetaToCtrl opts \<noteq> Some False);
          normalized0 =
            replaceAll ''~S-'' []
              (replaceAll ''S-'' ''shift+'' (replaceAll ''C-'' ''ctrl+'' sequence));
          normalized1 =
            (if isMac navigator then
               (if macMapMetaToCtrl
                then replaceAll ''A-'' ''alt+'' (replaceAll ''M-'' ''ctrl+'' normalized0)
                else replaceAll ''A-'' ''alt+'' (replaceAll ''M-'' ''meta+'' normalized0))
             else replaceAll ''A-'' ''alt+'' (replaceAll ''M-'' ''alt+'' normalized0))
      in keyNames (ensureLowercaseSingle (toLowerCase normalized1)))"

text \<open>
  The table of \<open>convertCommand\<close>. Text outside ASCII is written as its UTF-8 bytes; neither
  the parser nor the handler looks inside an action.
\<close>

definition commandMappings :: "(string \<times> action) list" where
  "commandMappings =
     [(''font-bold'', Wrap ''**'' ''**''),
      (''font-emph'', Wrap ''*'' ''*''),
      (''font-underline'', Wrap ''_'' ''_''),
      (''font-typewriter'', Wrap ''`'' ''`''),
      (''font-strikeout'', Wrap ''~~'' ''~~''),
      (''math-mode'', Wrap ''$'' ''$''),
      (''math-display'', Wrap [CHR ''$'', CHR ''$'', newline] [newline, CHR ''$'', CHR ''$'']),
      (''quote-insert inner'', Insert [dquote]),
      (''quote-insert outer auto plain'', Insert [CHR 0x27]),
      (''specialchar-insert hyphenation'', Insert [CHR 0xC2, CHR 0xAD]),
      (''specialchar-insert nobreakdash'', Insert [CHR 0xE2, CHR 0x80, CHR 0x91]),
      (''specialchar-insert ligature-break'', Insert [CHR 0xE2, CHR 0x80, CHR 0x8C]),
      (''specialchar-insert slash'', Insert ''/''),
      (''specialchar-insert end-of-sentence'', Insert ''. ''),
      (''specialchar-insert dots'', Insert [CHR 0xE2, CHR 0x80, CHR 0xA6]),
      (''space-insert protected'', Insert [CHR 0xC2, CHR 0xA0]),
      (''space-insert normal'', Insert '' ''),
      (''space-insert thin'', Insert [CHR 0xE2, CHR 0x80, CHR 0x89]),
      (''ert-insert'', Wrap [backslash] []),
      (''paragraph-break'', Insert [newline, newline]),
      (''paragraph-break inverse'', Insert [newline]),
      (''newline-insert newline'', Insert [newline]),
      (''newline-insert linebreak'', Insert [backslash, backslash, newline]),
      (''char-forward'', Navigation ''moveRight''),
      (''char-backward'', Navigation ''moveLeft''),
      (''word-right'', Navigation ''moveWordRight''),
      (''word-left'', Navigation ''moveWordLeft''),
      (''line-begin'', Navigation ''moveLineStart''),
      (''line-end'', Navigation ''moveLineEnd''),
      (''buffer-begin'', Navigation ''moveDocumentStart''),
      (''buffer-end'', Navigation ''moveDocumentEnd''),
      (''char-right-select'', Selection ''selectRight''),
      (''char-left-select'', Selection ''selectLeft''),
      (''word-right-select'', Selection ''selectWordRight''),
      (''word-left-select'', Selection ''selectWordLeft''),
      (''line-begin-select'', Selection ''selectLineStart''),
      (''line-end-select'', Selection ''selectLineEnd''),
      (''buffer-begin-select'', Selection ''selectDocumentStart''),
      (''buffer-end-select'', Selection ''selectDocumentEnd''),
      (''char-delete-forward'', Delete ''deleteRight''),
      (''char-delete-backward'', Delete ''deleteLeft''),
      (''word-delete-forward'', Delete ''deleteWordRight''),
      (''word-delete-backward'', Delete ''deleteWordLeft''),
      (''line-delete-forward'', Delete ''deleteLineForward''),
      (''copy'', Clipboard ''copy''),
      (''paste'', Clipboard ''paste''),
      (''cut'', Clipboard ''cut''),
      (''undo'', Edit ''undo''),
      (''redo'', Edit ''redo'')]"

definition convertCommand :: "string \<Rightarrow> action option" where
  "convertCommand cmd =
     (if startsWith cmd ''math-insert '' then Some (Insert (drop 12 cmd))
      else map_of commandMappings cmd)"

text \<open>
  The regular expression of \<open>parseBindLine\<close>, \<^verbatim>\<open>/\\bind\s+"([^"]+)"\s+"([^"]+)"/\<close>. Both
  \<^verbatim>\<open>\s+\<close> and \<^verbatim>\<open>[^"]+\<close> are followed by a character outside their class, so the greedy
  match is the only one: \<open>spaces1\<close> is \<^verbatim>\<open>\s+\<close>, \<open>quoted\<close> is \<^verbatim>\<open>"([^"]+)"\<close>, each giving
  the rest of the input. The expression has no anchor: \<open>matchBind\<close> tries every start from
  left to right.
\<close>

definition spaces1 :: "string \<Rightarrow> string option" where
  "spaces1 s =
     (case s of
        c # cs \<Rightarrow> if isSpace c then Some (dropWhile isSpace cs) else None
      | [] \<Rightarrow> None)"

definition quoted :: "string \<Rightarrow> (string \<times> string) option" where
  "quoted s =
     (case s of
        q # cs \<Rightarrow>
          if q = dquote then
            (let body = takeWhile (\<lambda>c. c \<noteq> dquote) cs;
                 rest = dropWhile (\<lambda>c. c \<noteq> dquote) cs
             in if body = [] then None
                else (case rest of q' # rest' \<Rightarrow> Some (body, rest') | [] \<Rightarrow> None))
          else None
      | [] \<Rightarrow> None)"

definition matchBindAt :: "string \<Rightarrow> (string \<times> string) option" where
  "matchBindAt s =
     (if startsWith s (backslash # ''bind'') then
        (case spaces1 (drop 5 s) of
           None \<Rightarrow> None
         | Some r1 \<Rightarrow>
            (case quoted r1 of
               None \<Rightarrow> None
             | Some (keySpec, r2) \<Rightarrow>
                (case spaces1 r2 of
                   None \<Rightarrow> None
                 | Some r3 \<Rightarrow>
                    (case quoted r3 of
                       None \<Rightarrow> None
                     | Some (cmd, r4) \<Rightarrow> Some (keySpec, cmd)))))
      else None)"

fun matchBind :: "string \<Rightarrow> (string \<times> string) option" where
  "matchBind [] = matchBindAt []"
| "matchBind (c # cs) =
     (case matchBindAt (c # cs) of Some m \<Rightarrow> Some m | None \<Rightarrow> matchBind cs)"

definition parseBindLine :: "string \<Rightarrow> rawBinding option" where
  "parseBindLine line =
     (case matchBind line of
        None \<Rightarrow> None
      | Some (keySpec, cmd) \<Rightarrow> Some \<lparr>originalKey = keySpec, command = cmd\<rparr>)"

text \<open>The first pass of \<open>parse\<close> over the lines of the file.\<close>

fun collectBindings :: "string list \<Rightarrow> rawBinding list" where
  "collectBindings [] = []"
| "collectBindings (l # ls) =
     (let line = trim l in
      if startsWith line ''#'' \<or> startsWith line ''Format'' \<or> line = [] \<or>
         startsWith line (backslash # ''bind_file'')
      then collectBindings ls
      else if startsWith line (backslash # ''bind '')
      then (case parseBindLine line of
              Some binding \<Rightarrow> binding # collectBindings ls
            | None \<Rightarrow> collectBindings ls)
      else collectBindings ls)"

definition commonMacKeys :: "string list" where
  "commonMacKeys = [''m'', ''n'', ''o'', ''p'', ''q'', ''r'', ''s'', ''t'', ''w'']"

text \<open>
  The first pass of \<open>resolveConflictsAndBuild\<close>. \<open>commandMode\<close> is its guard
  \<open>isMac && !options.mapMetaToCtrl\<close>; outside it the three sets stay empty. A set of
  strings is given by a list of its members.
\<close>

definition commandMode :: "string option \<Rightarrow> options \<Rightarrow> bool" where
  "commandMode navigator opts = (isMac navigator \<and> mapMetaToCtrl opts \<noteq> Some True)"

definition metaKeys :: "rawBinding list \<Rightarrow> string list" where
  "metaKeys bindings =
     map (\<lambda>b. drop 2 (originalKey b)) (filter (\<lambda>b. startsWith (originalKey b) ''M-'') bindings)"

definition hasMetaTwin :: "rawBinding list \<Rightarrow> rawBinding \<Rightarrow> bool" where
  "hasMetaTwin bindings b =
     list_ex (\<lambda>other. originalKey other = ''M-'' @ drop 2 (originalKey b) \<and>
                       command other = command b) bindings"

definition isPromoted :: "rawBinding list \<Rightarrow> rawBinding \<Rightarrow> bool" where
  "isPromoted bindings b =
     (drop 2 (originalKey b) \<in> set commonMacKeys \<and>
      drop 2 (originalKey b) \<notin> set (metaKeys bindings))"

definition ctrlKeysToPromote :: "string option \<Rightarrow> options \<Rightarrow> rawBinding list \<Rightarrow> string list" where
  "ctrlKeysToPromote navigator opts bindings =
     (if commandMode navigator opts
      then map originalKey
             (filter (\<lambda>b. startsWith (originalKey b) ''C-'' \<and> isPromoted bindings b) bindings)
      else [])"

definition conflictingCtrlKeys :: "string option \<Rightarrow> options \<Rightarrow> rawBinding list \<Rightarrow> string list" where
  "conflictingCtrlKeys navigator opts bindings =
     (if commandMode navigator opts
      then map originalKey
             (filter (\<lambda>b. startsWith (originalKey b) ''C-'' \<and>
                           (hasMetaTwin bindings b \<or> isPromoted bindings b)) bindings)
      else [])"

text \<open>
  The second pass: what one binding puts into the table, if anything, and the loop over
  the bindings.
\<close>

definition buildEntry ::
  "string option \<Rightarrow> options \<Rightarrow> string list \<Rightarrow> string list \<Rightarrow> rawBinding \<Rightarrow> (string \<times> action) option"
where
  "buildEntry navigator opts conflicting promote b =
     (if originalKey b \<in> set conflicting then
        (if originalKey b \<in> set promote then
           (case convertCommand (command b) of
              Some a \<Rightarrow> Some (''meta+'' @ drop 2 (originalKey b), a)
            | None \<Rightarrow> None)
         else None)
      else
        (case convertCommand (command b) of
           Some a \<Rightarrow> Some (normalizeKeySequence navigator opts (originalKey b), a)
         | None \<Rightarrow> None))"

fun buildMappings ::
  "string option \<Rightarrow> options \<Rightarrow> string list \<Rightarrow> string list \<Rightarrow> rawBinding list \<Rightarrow> table \<Rightarrow> table"
where
  "buildMappings navigator opts conflicting promote [] keySequences = keySequences"
| "buildMappings navigator opts conflicting promote (b # bs) keySequences =
     buildMappings navigator opts conflicting promote bs
       (case buildEntry navigator opts conflicting promote b of
          Some (k, a) \<Rightarrow> AList.update k a keySequences
        | None \<Rightarrow> keySequences)"

definition resolveConflictsAndBuild :: "string option \<Rightarrow> options \<Rightarrow> rawBinding list \<Rightarrow> table" where
  "resolveConflictsAndBuild navigator opts bindings =
     buildMappings navigator opts
       (conflictingCtrlKeys navigator opts bindings)
       (ctrlKeysToPromote navigator opts bindings)
       bindings []"

text \<open>
  What the second pass stores for the binding \<open>b\<close> of the list \<open>bindings\<close>: the body of its
  loop with the two sets of the first pass.
\<close>

definition lineEntry ::
  "string option \<Rightarrow> options \<Rightarrow> rawBinding list \<Rightarrow> rawBinding \<Rightarrow> (string \<times> action) option"
where
  "lineEntry navigator opts bindings b =
     buildEntry navigator opts
       (conflictingCtrlKeys navigator opts bindings)
       (ctrlKeysToPromote navigator opts bindings) b"

text \<open>\<open>parse(content, options)\<close>: the map \<open>keySequences\<close> is cleared first.\<close>

definition parse :: "string option \<Rightarrow> options \<Rightarrow> string \<Rightarrow> table" where
  "parse navigator opts content =
     resolveConflictsAndBuild navigator opts (collectBindings (splitLines content))"

section \<open>Sample inputs\<close>

text \<open>A key-down event with no modifier held, and one with Ctrl held.\<close>

definition keyDown :: "string \<Rightarrow> string \<Rightarrow> event" where
  "keyDown k c =
     \<lparr>key = k, code = c, ctrlKey = False, altKey = False, shiftKey = False, metaKey = False\<rparr>"

definition ctrlKeyDown :: "string \<Rightarrow> string \<Rightarrow> event" where
  "ctrlKeyDown k c =
     \<lparr>key = k, code = c, ctrlKey = True, altKey = False, shiftKey = False, metaKey = False\<rparr>"

text \<open>The table of one two-key sequence, and a handler in which its first key is pending.\<close>

definition alphaTable :: table where
  "alphaTable = [(''ctrl+l a'', Insert (backslash # ''alpha''))]"

definition pendingCtrlL :: handler where
  "pendingCtrlL =
     \<lparr>keySequence = [''ctrl+l''], sequenceTimeout = Some 1, sequenceTimeoutDuration = 1000,
      mappings = alphaTable, enabled = True, timers = [(1, 1000)], nextTimer = 2\<rparr>"

text \<open>The line \<^verbatim>\<open>\bind "keySpec" "cmd"\<close> of a bind file, and the options \<open>{mapMetaToCtrl: false}\<close>.\<close>

definition bindLine :: "string \<Rightarrow> string \<Rightarrow> string" where
  "bindLine keySpec cmd =
     backslash # ''bind '' @ dquote # keySpec @ dquote # '' '' @ dquote # cmd @ [dquote]"

definition macCommand :: options where
  "macCommand = \<lparr>overrideSystemShortcuts = None, mapMetaToCtrl = Some False\<rparr>"

section \<open>Evaluation on concrete inputs\<close>

lemmas getKeyCombo_eval = getKeyCombo_def keyDown_def ctrlKeyDown_def platformIsMac_def
  toUpperCase_def upperChar_def toLowerCase_def lowerChar_def keyNormalizations_def codeToKey_def

lemmas handler_eval = processKeyEvent_def Let_def findMatchingAction_def hasPartialMatch_def
  clearSequence_def clearExistingTimeout_def clearTimeout_def setMappings_def setEnabled_def
  setSequenceTimeout_def timeoutFires_def initial_def pendingCtrlL_def alphaTable_def

lemmas parse_eval = parse_def bindLine_def macCommand_def resolveConflictsAndBuild_def
  conflictingCtrlKeys_def ctrlKeysToPromote_def commandMode_def isMac_def platformIsMac_def
  toUpperCase_def upperChar_def toLowerCase_def lowerChar_def trim_def isSpace_def
  parseBindLine_def matchBindAt_def spaces1_def quoted_def metaKeys_def hasMetaTwin_def
  isPromoted_def commonMacKeys_def buildEntry_def convertCommand_def commandMappings_def
  normalizeKeySequence_def keyNames_def ensureLowercaseSingle_def

lemmas bindings_eval = bindLine_def trim_def isSpace_def parseBindLine_def matchBindAt_def
  spaces1_def quoted_def

section \<open>The handler's timer and its pending sequence\<close>

lemma clearSequence_matches:
  "timerMatchesSequence s \<Longrightarrow> timerMatchesSequence (clearSequence s)"
  by (auto simp: timerMatchesSequence_def clearSequence_def clearTimeout_def split: option.splits)

lemma clearSequence_pending_matches:
  "timerMatchesSequence s \<Longrightarrow>
   timerMatchesSequence (clearSequence (clearExistingTimeout (s\<lparr>keySequence := ks\<rparr>)))"
  by (auto simp: timerMatchesSequence_def clearSequence_def clearExistingTimeout_def
      clearTimeout_def split: option.splits)

lemma schedule_matches:
  "timerMatchesSequence s \<Longrightarrow> s2 = clearExistingTimeout (s\<lparr>keySequence := ks @ [c]\<rparr>) \<Longrightarrow>
   timerMatchesSequence (s2\<lparr>sequenceTimeout := Some (nextTimer s2),
        timers := timers s2 @ [(nextTimer s2, sequenceTimeoutDuration s2)],
        nextTimer := Suc (nextTimer s2)\<rparr>)"
  by (auto simp: timerMatchesSequence_def clearExistingTimeout_def
      clearTimeout_def split: option.splits)

lemma processKeyEvent_matches:
  "timerMatchesSequence s \<Longrightarrow>
   timerMatchesSequence (after (processKeyEvent platform e target s))"
  unfolding processKeyEvent_def Let_def
  by (simp split: option.splits add: clearSequence_pending_matches schedule_matches)

lemma timeoutFires_matches:
  "timerMatchesSequence s \<Longrightarrow> timerMatchesSequence (timeoutFires h s)"
  by (auto simp: timerMatchesSequence_def timeoutFires_def clearSequence_def clearTimeout_def
      split: option.splits)

lemma perform_matches:
  "timerMatchesSequence s \<Longrightarrow> timerMatchesSequence (perform platform operation s)"
  by (cases operation)
     (simp_all add: processKeyEvent_matches clearSequence_matches timeoutFires_matches,
      auto simp: timerMatchesSequence_def setMappings_def setEnabled_def setSequenceTimeout_def
        split: mappingsArg.splits)

lemma run_matches:
  "timerMatchesSequence s \<Longrightarrow> timerMatchesSequence (run platform ops s)"
  by (induction ops arbitrary: s) (simp_all add: perform_matches)

text \<open>
  Claim C10. In the initial state and after every run of calls to \<open>processKeyEvent\<close>,
  \<open>clearSequence\<close>, \<open>setMappings\<close>, \<open>setEnabled\<close> and \<open>setSequenceTimeout\<close>, with the
  timer firing at any point between them, a sequence timeout is scheduled if and only if
  the pending key sequence is not empty, and the handle the handler holds is the only
  timer outstanding: at most one timer is outstanding, and a state with an empty pending
  sequence has none.
\<close>

theorem timer_scheduled_iff_sequence_pending:
  "timerMatchesSequence (run platform ops initial)"
  by (rule run_matches) (simp add: timerMatchesSequence_def initial_def)

section \<open>The decision of \<open>processKeyEvent\<close>\<close>

text \<open>
  Claim C1. For an enabled handler and a key-down event that yields a key combination,
  \<open>processKeyEvent\<close> appends the combination to the pending sequence and clears the
  outstanding timeout; then (a) if the pending sequence joined by spaces is a key of the
  table, it emits that key's action, returns true, and leaves the pending sequence empty
  and no timeout scheduled; (b) otherwise, if a key of the table starts with the joined
  sequence and a space, it returns true without an action, keeps the pending sequence and
  schedules one timeout of the configured duration; (c) otherwise it returns false and
  leaves the pending sequence empty and no timeout scheduled.
\<close>

theorem processKeyEvent_decision:
  assumes "enabled s" and "getKeyCombo platform e = Some combo" and "combo \<noteq> []"
  shows
   "(\<forall>a. map_of (mappings s) (join '' '' (keySequence s @ [combo])) = Some a \<longrightarrow>
        processKeyEvent platform e target s =
          \<lparr>handled = True, emitted = Some (a, target),
           after = s\<lparr>keySequence := [], sequenceTimeout := None,
                     timers := timers (clearExistingTimeout s)\<rparr>\<rparr>) \<and>
    (map_of (mappings s) (join '' '' (keySequence s @ [combo])) = None \<and>
     (\<exists>k \<in> fst ` set (mappings s).
        startsWith k (join '' '' (keySequence s @ [combo]) @ '' '')) \<longrightarrow>
        processKeyEvent platform e target s =
          \<lparr>handled = True, emitted = None,
           after = s\<lparr>keySequence := keySequence s @ [combo],
                     sequenceTimeout := Some (nextTimer s),
                     timers := timers (clearExistingTimeout s)
                                 @ [(nextTimer s, sequenceTimeoutDuration s)],
                     nextTimer := Suc (nextTimer s)\<rparr>\<rparr>) \<and>
    (map_of (mappings s) (join '' '' (keySequence s @ [combo])) = None \<and>
     \<not> (\<exists>k \<in> fst ` set (mappings s).
        startsWith k (join '' '' (keySequence s @ [combo]) @ '' '')) \<longrightarrow>
        processKeyEvent platform e target s =
          \<lparr>handled = False, emitted = None,
           after = s\<lparr>keySequence := [], sequenceTimeout := None,
                     timers := timers (clearExistingTimeout s)\<rparr>\<rparr>)"
  using assms
  by (auto simp: processKeyEvent_def Let_def findMatchingAction_def hasPartialMatch_def
      clearSequence_def clearExistingTimeout_def clearTimeout_def list_ex_iff
      split: option.splits)

theorem processKeyEvent_decision_witness:
  "processKeyEvent ''Win32'' (keyDown ''a'' ''KeyA'') (0::nat) pendingCtrlL =
     \<lparr>handled = True, emitted = Some (Insert (backslash # ''alpha''), 0),
      after = pendingCtrlL\<lparr>keySequence := [], sequenceTimeout := None, timers := []\<rparr>\<rparr> \<and>
   processKeyEvent ''Win32'' (ctrlKeyDown ''l'' ''KeyL'') (0::nat)
       (pendingCtrlL\<lparr>keySequence := [], sequenceTimeout := None, timers := []\<rparr>) =
     \<lparr>handled = True, emitted = None,
      after = pendingCtrlL\<lparr>keySequence := [''ctrl+l''], sequenceTimeout := Some 2,
                timers := [(2, 1000)], nextTimer := 3\<rparr>\<rparr> \<and>
   processKeyEvent ''Win32'' (keyDown ''x'' ''KeyX'') (0::nat) pendingCtrlL =
     \<lparr>handled = False, emitted = None,
      after = pendingCtrlL\<lparr>keySequence := [], sequenceTimeout := None, timers := []\<rparr>\<rparr>"
proof -
  have en: "enabled pendingCtrlL"
    and en': "enabled (pendingCtrlL\<lparr>keySequence := [], sequenceTimeout := None, timers := []\<rparr>)"
    by (simp_all add: pendingCtrlL_def)
  have a: "getKeyCombo ''Win32'' (keyDown ''a'' ''KeyA'') = Some ''a''"
    and l: "getKeyCombo ''Win32'' (ctrlKeyDown ''l'' ''KeyL'') = Some ''ctrl+l''"
    and x: "getKeyCombo ''Win32'' (keyDown ''x'' ''KeyX'') = Some ''x''"
    by (simp_all add: getKeyCombo_eval)
  show ?thesis
    using processKeyEvent_decision [OF en a, of "0::nat"]
      processKeyEvent_decision [OF en' l, of "0::nat"]
      processKeyEvent_decision [OF en x, of "0::nat"]
    by (simp add: pendingCtrlL_def alphaTable_def clearExistingTimeout_def clearTimeout_def)
qed

section \<open>Disabling the handler\<close>

text \<open>
  Claim C8 (the code differs). The claim: \<open>setEnabled(false)\<close> clears the pending sequence
  and cancels the pending timer, so the next key after \<open>setEnabled(true)\<close> starts a fresh
  sequence. \<open>setEnabled\<close> only stores the flag: with \<open>ctrl+l\<close> pending (the state after
  \<open>setMappings\<close> and one Ctrl+L), disabling keeps the pending sequence and its timer, and
  after enabling again the key \<open>a\<close> completes \<open>ctrl+l a\<close> and emits its action, where the
  same key on a handler with nothing pending is not handled.
\<close>

theorem setEnabled_false_keeps_pending_sequence:
  "run ''Win32'' [SetMappings (ArgMap alphaTable), ProcessKeyEvent (ctrlKeyDown ''l'' ''KeyL'') (0::nat)]
      initial = pendingCtrlL \<and>
   keySequence (setEnabled False pendingCtrlL) = [''ctrl+l''] \<and>
   sequenceTimeout (setEnabled False pendingCtrlL) = Some 1 \<and>
   timers (setEnabled False pendingCtrlL) = [(1, 1000)] \<and>
   processKeyEvent ''Win32'' (keyDown ''a'' ''KeyA'') (0::nat)
       (setEnabled True (setEnabled False pendingCtrlL)) =
     \<lparr>handled = True, emitted = Some (Insert (backslash # ''alpha''), 0),
      after = pendingCtrlL\<lparr>keySequence := [], sequenceTimeout := None, timers := []\<rparr>\<rparr> \<and>
   processKeyEvent ''Win32'' (keyDown ''a'' ''KeyA'') (0::nat)
       (pendingCtrlL\<lparr>keySequence := [], sequenceTimeout := None, timers := []\<rparr>) =
     \<lparr>handled = False, emitted = None,
      after = pendingCtrlL\<lparr>keySequence := [], sequenceTimeout := None, timers := []\<rparr>\<rparr>"
  by (simp add: handler_eval getKeyCombo_eval)

section \<open>An invalid mapping table\<close>

lemma after_processKeyEvent_mappings:
  "mappings (after (processKeyEvent platform e target s)) = mappings s"
  by (simp add: processKeyEvent_def Let_def clearSequence_def clearExistingTimeout_def
      split: option.splits)

lemma perform_mappings:
  "\<forall>a. operation \<noteq> SetMappings a \<Longrightarrow> mappings (perform platform operation s) = mappings s"
  by (cases operation)
     (simp_all add: after_processKeyEvent_mappings clearSequence_def setEnabled_def
        setSequenceTimeout_def timeoutFires_def split: option.splits)

lemma run_mappings:
  "\<forall>a. SetMappings a \<notin> set ops \<Longrightarrow> mappings (run platform ops s) = mappings s"
proof (induction ops arbitrary: s)
  case Nil
  then show ?case by simp
next
  case (Cons operation ops)
  then have "\<forall>a. operation \<noteq> SetMappings a" and "\<forall>a. SetMappings a \<notin> set ops"
    by auto
  then show ?case
    using Cons.IH by (simp add: perform_mappings)
qed

lemma processKeyEvent_empty_table:
  assumes "mappings s = []" and "enabled s" and "getKeyCombo platform e = Some combo" and "combo \<noteq> []"
  shows "processKeyEvent platform e target s =
     \<lparr>handled = False, emitted = None,
      after = s\<lparr>keySequence := [], sequenceTimeout := None,
                timers := timers (clearExistingTimeout s)\<rparr>\<rparr>"
  using assms
  by (auto simp: processKeyEvent_def Let_def findMatchingAction_def hasPartialMatch_def
      clearSequence_def clearExistingTimeout_def clearTimeout_def split: option.splits)

text \<open>
  Claim C9 (amended). For every argument that is neither a \<open>Map\<close> nor a non-null object,
  \<open>setMappings\<close> installs the empty table, and the table stays empty through every later
  run of calls other than \<open>setMappings\<close>. On such a handler, while it is enabled, every
  \<open>processKeyEvent\<close> call on an event that yields a key combination returns false, emits no
  action and leaves the pending sequence empty with no timeout scheduled; while it is
  disabled the call returns false, emits no action and leaves the handler as it was.
  No call raises an error.
\<close>

theorem setMappings_invalid_fails_closed:
  assumes "\<forall>m. arg \<noteq> ArgMap m" and "\<forall>entries. arg \<noteq> ArgObject entries"
    and "\<forall>a. SetMappings a \<notin> set ops"
  shows
   "mappings (setMappings arg s) = [] \<and>
    mappings (run platform ops (setMappings arg s)) = [] \<and>
    (enabled (run platform ops (setMappings arg s)) \<and>
     getKeyCombo platform e = Some combo \<and> combo \<noteq> [] \<longrightarrow>
       processKeyEvent platform e target (run platform ops (setMappings arg s)) =
         \<lparr>handled = False, emitted = None,
          after = (run platform ops (setMappings arg s))
                    \<lparr>keySequence := [], sequenceTimeout := None,
                     timers := timers (clearExistingTimeout (run platform ops (setMappings arg s)))\<rparr>\<rparr>) \<and>
    (\<not> enabled (run platform ops (setMappings arg s)) \<longrightarrow>
       processKeyEvent platform e target (run platform ops (setMappings arg s)) =
         \<lparr>handled = False, emitted = None, after = run platform ops (setMappings arg s)\<rparr>)"
proof -
  have empty: "mappings (setMappings arg s) = []"
    using assms(1,2) by (cases arg) (simp_all add: setMappings_def)
  then have later: "mappings (run platform ops (setMappings arg s)) = []"
    using assms(3) by (simp add: run_mappings)
  show ?thesis
    using empty later by (simp add: processKeyEvent_empty_table) (simp add: processKeyEvent_def)
qed

theorem setMappings_invalid_fails_closed_witness:
  "mappings (setMappings ArgNull pendingCtrlL) = [] \<and>
   processKeyEvent ''Win32'' (keyDown ''a'' ''KeyA'') (0::nat) (setMappings ArgNull pendingCtrlL) =
     \<lparr>handled = False, emitted = None,
      after = pendingCtrlL\<lparr>keySequence := [], sequenceTimeout := None, timers := [],
                mappings := []\<rparr>\<rparr> \<and>
   processKeyEvent ''Win32'' (keyDown ''a'' ''KeyA'') (0::nat)
       (run ''Win32'' [SetEnabled False :: nat operation] (setMappings (ArgNumber 7) pendingCtrlL)) =
     \<lparr>handled = False, emitted = None,
      after = pendingCtrlL\<lparr>mappings := [], enabled := False\<rparr>\<rparr>"
proof -
  have a: "getKeyCombo ''Win32'' (keyDown ''a'' ''KeyA'') = Some ''a''"
    by (simp add: getKeyCombo_eval)
  have 1: "\<forall>m. ArgNull \<noteq> ArgMap m" "\<forall>entries. ArgNull \<noteq> ArgObject entries"
    and 2: "\<forall>m. ArgNumber 7 \<noteq> ArgMap m" "\<forall>entries. ArgNumber 7 \<noteq> ArgObject entries"
    and 3: "\<forall>a. SetMappings a \<notin> set ([] :: nat operation list)"
    and 4: "\<forall>a. SetMappings a \<notin> set [SetEnabled False :: nat operation]"
    by simp_all
  show ?thesis
    using setMappings_invalid_fails_closed [OF 1 3, of pendingCtrlL "''Win32''" "keyDown ''a'' ''KeyA''" "''a''" 0]
      setMappings_invalid_fails_closed [OF 2 4, of pendingCtrlL "''Win32''" "keyDown ''a'' ''KeyA''" "''a''" 0]
      a
    by (simp add: setMappings_def setEnabled_def pendingCtrlL_def clearExistingTimeout_def
        clearTimeout_def)
qed

text \<open>
  The claim as first stated fails on a disabled handler: \<open>processKeyEvent\<close> returns at its
  \<open>enabled\<close> test, so where a sequence was pending when the handler was disabled, the key
  \<open>a\<close> yields a key combination, yet after \<open>setMappings(null)\<close> the pending sequence
  \<open>ctrl+l\<close> is still there.
\<close>

theorem disabled_handler_keeps_pending_sequence:
  "getKeyCombo ''Win32'' (keyDown ''a'' ''KeyA'') = Some ''a'' \<and>
   keySequence (after (processKeyEvent ''Win32'' (keyDown ''a'' ''KeyA'') (0::nat)
      (setMappings ArgNull (setEnabled False pendingCtrlL)))) \<noteq> []"
  by (simp add: handler_eval getKeyCombo_eval)

section \<open>The key combination of arrow and page keys\<close>

lemma join_parts:
  "join ''+'' ((if c then [''ctrl''] else []) @ (if a then [''alt''] else []) @
               (if s then [''shift''] else []) @ (if m then [''meta''] else []) @ [k]) =
   (if c then ''ctrl+'' else []) @ (if a then ''alt+'' else []) @
   (if s then ''shift+'' else []) @ (if m then ''meta+'' else []) @ k"
  by simp

lemma getKeyCombo_arrow_and_page_keys:
  assumes "(toLowerCase (key e), token) \<in> set [(''arrowleft'', ''left''), (''arrowright'', ''right''),
      (''arrowup'', ''up''), (''arrowdown'', ''down''), (''pageup'', ''prior''), (''pagedown'', ''next'')]"
    and "map_of codeToKey (code e) = None"
  shows "getKeyCombo platform e =
     Some ((if ctrlKey e then ''ctrl+'' else []) @ (if altKey e then ''alt+'' else []) @
           (if shiftKey e then ''shift+'' else []) @ (if metaKey e then ''meta+'' else []) @ token)"
proof -
  have key2: "(case map_of keyNormalizations (toLowerCase (key e)) of Some k \<Rightarrow> k | None \<Rightarrow> toLowerCase (key e)) = token"
    and tok: "token \<notin> set [''control'', ''alt'', ''shift'', ''meta'']"
    using assms(1) by (auto simp: keyNormalizations_def)
  have key1: "(if platformIsMac platform \<and> altKey e \<and> \<not> ctrlKey e \<and> \<not> metaKey e
        then (case map_of codeToKey (code e) of Some k \<Rightarrow> k | None \<Rightarrow> toLowerCase (key e))
        else toLowerCase (key e)) = toLowerCase (key e)"
    using assms(2) by simp
  show ?thesis
    unfolding getKeyCombo_def Let_def key1 key2
    using tok by simp
qed

text \<open>
  Claim C2 (the code differs). The claim: for a key-down event on an arrow or page key the
  key combination uses the tokens \<open>arrowleft\<close>, \<open>arrowright\<close>, \<open>arrowup\<close>, \<open>arrowdown\<close>,
  \<open>pageup\<close> and \<open>pagedown\<close> after the modifiers in the order ctrl, alt, shift, meta, so that
  ArrowLeft with Ctrl held gives \<open>ctrl+arrowleft\<close> and PageUp with Ctrl held gives
  \<open>ctrl+pageup\<close>. The modifiers come in that order, but \<open>getKeyCombo\<close> rewrites the key to
  \<open>left\<close>, \<open>right\<close>, \<open>up\<close>, \<open>down\<close>, \<open>prior\<close> and \<open>next\<close>: ArrowLeft with Ctrl held gives
  \<open>ctrl+left\<close> and PageUp with Ctrl held gives \<open>ctrl+prior\<close>, on the Mac and elsewhere,
  while the parser's table key for \<open>C-Left\<close> is \<open>ctrl+arrowleft\<close>.
\<close>

theorem arrow_keys_get_lyx_names:
  "getKeyCombo ''Win32'' (ctrlKeyDown ''ArrowLeft'' ''ArrowLeft'') = Some ''ctrl+left'' \<and>
   getKeyCombo ''MacIntel'' (ctrlKeyDown ''ArrowLeft'' ''ArrowLeft'') = Some ''ctrl+left'' \<and>
   getKeyCombo ''Win32'' (ctrlKeyDown ''PageUp'' ''PageUp'') = Some ''ctrl+prior'' \<and>
   getKeyCombo ''MacIntel'' (ctrlKeyDown ''PageUp'' ''PageUp'') = Some ''ctrl+prior'' \<and>
   getKeyCombo ''Win32'' (ctrlKeyDown ''ArrowLeft'' ''ArrowLeft'') \<noteq> Some ''ctrl+arrowleft'' \<and>
   getKeyCombo ''Win32'' (ctrlKeyDown ''PageUp'' ''PageUp'') \<noteq> Some ''ctrl+pageup'' \<and>
   normalizeKeySequence (Some ''Win32'') \<lparr>overrideSystemShortcuts = None, mapMetaToCtrl = None\<rparr>
     ''C-Left'' = ''ctrl+arrowleft''"
proof -
  have keys: "getKeyCombo ''Win32'' (ctrlKeyDown ''ArrowLeft'' ''ArrowLeft'') = Some ''ctrl+left''"
    "getKeyCombo ''MacIntel'' (ctrlKeyDown ''ArrowLeft'' ''ArrowLeft'') = Some ''ctrl+left''"
    "getKeyCombo ''Win32'' (ctrlKeyDown ''PageUp'' ''PageUp'') = Some ''ctrl+prior''"
    "getKeyCombo ''MacIntel'' (ctrlKeyDown ''PageUp'' ''PageUp'') = Some ''ctrl+prior''"
    by (simp_all add: getKeyCombo_eval)
  have table: "normalizeKeySequence (Some ''Win32'')
      \<lparr>overrideSystemShortcuts = None, mapMetaToCtrl = None\<rparr> ''C-Left'' = ''ctrl+arrowleft''"
    by (simp add: parse_eval)
  from keys table show ?thesis by simp
qed

section \<open>The table built from the bindings\<close>

lemma buildMappings_source:
  "map_of (buildMappings n opts c p bs t) K = Some a \<Longrightarrow>
   map_of t K = Some a \<or> (\<exists>b\<in>set bs. buildEntry n opts c p b = Some (K, a))"
proof (induction bs arbitrary: t)
  case Nil
  then show ?case by simp
next
  case (Cons b bs)
  show ?case
  proof (cases "buildEntry n opts c p b")
    case None
    with Cons show ?thesis by auto
  next
    case (Some entry)
    obtain k' a' where entry: "entry = (k', a')" by (cases entry)
    from Cons.prems Some entry
    have "map_of (buildMappings n opts c p bs (AList.update k' a' t)) K = Some a" by simp
    from Cons.IH [OF this] show ?thesis
      using Some entry by (auto simp: update_conv' split: if_splits)
  qed
qed

lemma buildMappings_keeps_keys:
  "map_of t K \<noteq> None \<Longrightarrow> map_of (buildMappings n opts c p bs t) K \<noteq> None"
proof (induction bs arbitrary: t)
  case Nil
  then show ?case by simp
next
  case (Cons b bs)
  then show ?case
    by (cases "buildEntry n opts c p b") (auto simp: update_conv')
qed

lemma buildMappings_has_key:
  "b \<in> set bs \<Longrightarrow> buildEntry n opts c p b = Some (K, a) \<Longrightarrow>
   map_of (buildMappings n opts c p bs t) K \<noteq> None"
proof (induction bs arbitrary: t)
  case Nil
  then show ?case by simp
next
  case (Cons b' bs)
  show ?case
  proof (cases "b = b'")
    case True
    with Cons.prems show ?thesis
      by (simp add: buildMappings_keeps_keys update_conv')
  next
    case False
    with Cons show ?thesis by simp
  qed
qed

lemma buildMappings_filter:
  "\<forall>b\<in>set bs. \<not> P b \<longrightarrow> buildEntry n opts c p b = None \<Longrightarrow>
   buildMappings n opts c p bs t = buildMappings n opts c p (filter P bs) t"
  by (induction bs arbitrary: t) auto

lemma buildMappings_cong:
  "\<forall>b\<in>set bs. buildEntry n opts c p b = buildEntry n opts c' p' b \<Longrightarrow>
   buildMappings n opts c p bs t = buildMappings n opts c' p' bs t"
  by (induction bs arbitrary: t) auto

lemma startsWith_append [simp]: "startsWith (p @ s) p"
  by (induction p) auto

lemma startsWith_iff: "startsWith s p \<longleftrightarrow> (\<exists>r. s = p @ r)"
proof (induction s p rule: startsWith.induct)
  case (1 s) then show ?case by simp
next
  case (2 p ps) then show ?case by simp
next
  case (3 c cs p ps) then show ?case by auto
qed

lemma map_filter_append:
  "List.map_filter f (xs @ ys) = List.map_filter f xs @ List.map_filter f ys"
  by (simp add: List.map_filter_def)

lemma buildMappings_lookup:
  "map_of (buildMappings n opts c p bs t) K =
   map_of (rev (List.map_filter (buildEntry n opts c p) bs) @ t) K"
proof (induction bs arbitrary: t)
  case Nil
  then show ?case by (simp add: List.map_filter_def)
next
  case (Cons b bs)
  show ?case
  proof (cases "buildEntry n opts c p b")
    case None
    with Cons show ?thesis by (simp add: List.map_filter_def)
  next
    case (Some entry)
    obtain k a where entry: "entry = (k, a)" by (cases entry)
    have "map_of (buildMappings n opts c p (b # bs) t) K =
        map_of (rev (List.map_filter (buildEntry n opts c p) bs) @ AList.update k a t) K"
      using Some entry Cons.IH by simp
    also have "\<dots> = map_of (rev (List.map_filter (buildEntry n opts c p) bs) @ (k, a) # t) K"
      by (simp add: map_add_def update_conv' split: option.splits)
    finally show ?thesis
      using Some entry by (simp add: List.map_filter_def)
  qed
qed

lemma table_last_wins:
  "map_of (resolveConflictsAndBuild nav opts bs) K =
   map_of (rev (List.map_filter (lineEntry nav opts bs) bs)) K"
proof -
  have "lineEntry nav opts bs =
      buildEntry nav opts (conflictingCtrlKeys nav opts bs) (ctrlKeysToPromote nav opts bs)"
    by (rule ext) (simp add: lineEntry_def)
  then show ?thesis
    unfolding resolveConflictsAndBuild_def by (simp add: buildMappings_lookup)
qed

lemma entries_source:
  assumes "map_of (rev (List.map_filter f xs)) K = Some a"
  shows "\<exists>b\<in>set xs. f b = Some (K, a)"
proof -
  from assms have "(K, a) \<in> set (rev (List.map_filter f xs))"
    by (rule map_of_SomeD)
  then show ?thesis
    by (auto simp: List.map_filter_def)
qed

lemma entries_at_position:
  assumes "f x = Some (K, a)"
    and "\<forall>b\<in>set post. \<forall>a'. f b = Some (K, a') \<longrightarrow> a' = a"
  shows "map_of (rev (List.map_filter f (pre @ x # post))) K = Some a"
proof (cases "map_of (rev (List.map_filter f post)) K")
  case None
  then show ?thesis
    using assms(1) by (simp add: map_filter_append map_add_def List.map_filter_def)
next
  case (Some a')
  from entries_source [OF Some] assms(2) have "a' = a" by blast
  with Some show ?thesis
    by (simp add: map_filter_append map_add_def List.map_filter_def)
qed

lemma entries_absent:
  assumes "\<forall>b\<in>set xs. \<forall>a'. f b \<noteq> Some (K, a')"
  shows "map_of (rev (List.map_filter f xs)) K = None"
proof (rule ccontr)
  assume "map_of (rev (List.map_filter f xs)) K \<noteq> None"
  then obtain a where "map_of (rev (List.map_filter f xs)) K = Some a" by blast
  from entries_source [OF this] assms show False by blast
qed


lemma entries_present:
  assumes "f x = Some (K, a)"
  shows "map_of (rev (List.map_filter f (pre @ x # post))) K \<noteq> None"
  using assms
  by (cases "map_of (rev (List.map_filter f post)) K")
     (simp_all add: map_filter_append map_add_def List.map_filter_def)

section \<open>Key normalization, prefix by prefix\<close>

lemma ensureLowercaseSingle_id [simp]: "ensureLowercaseSingle s = s"
proof (cases "rev s")
  case Nil
  then show ?thesis by (simp add: ensureLowercaseSingle_def)
next
  case (Cons c r)
  note outer = this
  show ?thesis
  proof (cases r)
    case Nil
    with outer show ?thesis by (simp add: ensureLowercaseSingle_def)
  next
    case (Cons p r')
    with outer have "rev s = c # p # r'" by simp
    then have "s = rev r' @ [p, c]" by (metis rev_rev_ident rev.simps append.assoc append_Cons append_Nil)
    then show ?thesis by (simp add: ensureLowercaseSingle_def)
  qed
qed

lemma lowerChar_eval [simp]:
  "lowerChar CHR ''c'' = CHR ''c''" "lowerChar CHR ''t'' = CHR ''t''" "lowerChar CHR ''r'' = CHR ''r''"
  "lowerChar CHR ''l'' = CHR ''l''" "lowerChar CHR ''+'' = CHR ''+''" "lowerChar CHR ''s'' = CHR ''s''"
  "lowerChar CHR ''h'' = CHR ''h''" "lowerChar CHR ''i'' = CHR ''i''" "lowerChar CHR ''f'' = CHR ''f''"
  "lowerChar CHR ''a'' = CHR ''a''" "lowerChar CHR ''m'' = CHR ''m''" "lowerChar CHR ''e'' = CHR ''e''"
  "lowerChar CHR ''~'' = CHR ''~''"
  by (simp_all add: lowerChar_def)

lemma normalize_C: "normalizeKeySequence nav opts (''C-'' @ k) = ''ctrl+'' @ normalizeKeySequence nav opts k"
  by (simp add: normalizeKeySequence_def Let_def keyNames_def toLowerCase_def)

lemma normalize_S: "normalizeKeySequence nav opts (''S-'' @ k) = ''shift+'' @ normalizeKeySequence nav opts k"
  by (simp add: normalizeKeySequence_def Let_def keyNames_def toLowerCase_def)

lemma normalize_notS: "normalizeKeySequence nav opts (''~S-'' @ k) = ''~shift+'' @ normalizeKeySequence nav opts k"
  by (simp add: normalizeKeySequence_def Let_def keyNames_def toLowerCase_def)

lemma normalize_A: "normalizeKeySequence nav opts (''A-'' @ k) = ''alt+'' @ normalizeKeySequence nav opts k"
  by (simp add: normalizeKeySequence_def Let_def keyNames_def toLowerCase_def)

lemma normalize_M: "normalizeKeySequence nav opts (''M-'' @ k) =
   (if isMac nav then (if mapMetaToCtrl opts = Some False then ''meta+'' else ''ctrl+'') else ''alt+'')
     @ normalizeKeySequence nav opts k"
  by (cases "mapMetaToCtrl opts") (auto simp add: normalizeKeySequence_def Let_def keyNames_def toLowerCase_def)

lemma normalize_names:
  "normalizeKeySequence nav opts ''Left'' = ''arrowleft''"
  "normalizeKeySequence nav opts ''Right'' = ''arrowright''"
  "normalizeKeySequence nav opts ''Up'' = ''arrowup''"
  "normalizeKeySequence nav opts ''Down'' = ''arrowdown''"
  "normalizeKeySequence nav opts ''Prior'' = ''pagearrowup''"
  "normalizeKeySequence nav opts ''Next'' = ''pagearrowdown''"
  "normalizeKeySequence nav opts ''Return'' = ''enter''"
  "normalizeKeySequence nav opts ''a'' = ''a''"
  by (simp_all add: normalizeKeySequence_def Let_def keyNames_def toLowerCase_def lowerChar_def)

section \<open>Conflicts between Ctrl and Meta bindings on the Mac\<close>

lemma metaKeys_filter:
  assumes "\<not> startsWith ck ''M-''"
  shows "metaKeys (filter (\<lambda>b. originalKey b \<noteq> ck) bs) = metaKeys bs"
proof -
  have "filter (\<lambda>b. startsWith (originalKey b) ''M-'') (filter (\<lambda>b. originalKey b \<noteq> ck) bs)
      = filter (\<lambda>b. startsWith (originalKey b) ''M-'') bs"
    using assms by (induction bs) auto
  then show ?thesis by (simp add: metaKeys_def)
qed

lemma hasMetaTwin_filter:
  assumes "\<not> startsWith ck ''M-''"
  shows "hasMetaTwin (filter (\<lambda>b. originalKey b \<noteq> ck) bs) b = hasMetaTwin bs b"
proof -
  have "originalKey other \<noteq> ck" if "originalKey other = ''M-'' @ r" for other :: rawBinding and r
  proof
    assume "originalKey other = ck"
    with that have "ck = ''M-'' @ r" by simp
    then have "startsWith ck ''M-''" by (simp only: startsWith_append)
    with assms show False by simp
  qed
  then have "(originalKey other \<noteq> ck \<and> originalKey other = ''M-'' @ r \<and> Q) =
      (originalKey other = ''M-'' @ r \<and> Q)" for other :: rawBinding and r Q
    by blast
  then show ?thesis
    unfolding hasMetaTwin_def list_ex_iff by (simp only: set_filter mem_Collect_eq bex_simps conj_assoc Bex_def)
qed

lemma isPromoted_filter:
  "\<not> startsWith ck ''M-'' \<Longrightarrow>
   isPromoted (filter (\<lambda>b. originalKey b \<noteq> ck) bs) b = isPromoted bs b"
  by (simp add: isPromoted_def metaKeys_filter)

lemma conflicting_filter:
  assumes "\<not> startsWith ck ''M-''" and "K \<noteq> ck"
  shows "K \<in> set (conflictingCtrlKeys nav opts (filter (\<lambda>b. originalKey b \<noteq> ck) bs)) \<longleftrightarrow>
   K \<in> set (conflictingCtrlKeys nav opts bs)"
  unfolding conflictingCtrlKeys_def
  using assms by (auto simp: hasMetaTwin_filter isPromoted_filter)

lemma promote_filter:
  assumes "\<not> startsWith ck ''M-''" and "K \<noteq> ck"
  shows "K \<in> set (ctrlKeysToPromote nav opts (filter (\<lambda>b. originalKey b \<noteq> ck) bs)) \<longleftrightarrow>
   K \<in> set (ctrlKeysToPromote nav opts bs)"
  unfolding ctrlKeysToPromote_def
  using assms by (auto simp: isPromoted_filter)

lemma metaKeys_member:
  "k \<in> set (metaKeys bs) \<longleftrightarrow> (\<exists>b\<in>set bs. originalKey b = ''M-'' @ k)"
proof
  assume "k \<in> set (metaKeys bs)"
  then obtain b where b: "b \<in> set bs" "startsWith (originalKey b) ''M-''"
      "k = drop 2 (originalKey b)"
    unfolding metaKeys_def by auto
  from b(2) obtain r where "originalKey b = ''M-'' @ r"
    unfolding startsWith_iff by blast
  with b(1,3) show "\<exists>b\<in>set bs. originalKey b = ''M-'' @ k"
    by auto
next
  assume "\<exists>b\<in>set bs. originalKey b = ''M-'' @ k"
  then obtain b where b: "b \<in> set bs" "originalKey b = ''M-'' @ k"
    by blast
  have "b \<in> set (filter (\<lambda>b. startsWith (originalKey b) ''M-'') bs)"
    using b by simp
  moreover have "k = drop 2 (originalKey b)"
    using b(2) by simp
  ultimately have "k \<in> (\<lambda>b. drop 2 (originalKey b)) ` set (filter (\<lambda>b. startsWith (originalKey b) ''M-'') bs)"
    by (rule_tac image_eqI)
  then show "k \<in> set (metaKeys bs)"
    unfolding metaKeys_def by simp
qed

lemma promote_member:
  "K \<in> set (ctrlKeysToPromote nav opts bs) \<longleftrightarrow>
   commandMode nav opts \<and> K \<in> originalKey ` set bs \<and> startsWith K ''C-'' \<and>
   drop 2 K \<in> set commonMacKeys \<and> drop 2 K \<notin> set (metaKeys bs)"
  by (auto simp: ctrlKeysToPromote_def isPromoted_def)

lemma conflicting_member:
  "K \<in> set (conflictingCtrlKeys nav opts bs) \<longleftrightarrow>
   commandMode nav opts \<and> startsWith K ''C-'' \<and>
   ((\<exists>b\<in>set bs. originalKey b = K \<and>
       (\<exists>other\<in>set bs. originalKey other = ''M-'' @ drop 2 K \<and> command other = command b)) \<or>
    (K \<in> originalKey ` set bs \<and> drop 2 K \<in> set commonMacKeys \<and> drop 2 K \<notin> set (metaKeys bs)))"
  by (auto simp: conflictingCtrlKeys_def isPromoted_def hasMetaTwin_def list_ex_iff)

lemma conflicting_starts_with_ctrl:
  "K \<in> set (conflictingCtrlKeys nav opts bs) \<Longrightarrow> startsWith K ''C-''"
  by (simp add: conflicting_member)

lemma promote_subset_conflicting:
  "K \<in> set (ctrlKeysToPromote nav opts bs) \<Longrightarrow> K \<in> set (conflictingCtrlKeys nav opts bs)"
  by (auto simp: promote_member conflicting_member)

lemma lineEntry_cases:
  assumes "lineEntry nav opts bs b = Some (K, a)"
  shows "convertCommand (command b) = Some a \<and>
    ((originalKey b \<in> set (ctrlKeysToPromote nav opts bs) \<and> K = ''meta+'' @ drop 2 (originalKey b)) \<or>
     (originalKey b \<notin> set (conflictingCtrlKeys nav opts bs) \<and>
      K = normalizeKeySequence nav opts (originalKey b)))"
  using assms unfolding lineEntry_def buildEntry_def
  by (auto split: if_splits option.splits)

lemma ctrl_entry_source:
  assumes "map_of (resolveConflictsAndBuild nav opts bs) (''ctrl+'' @ r) = Some a"
    and "ck \<in> set (conflictingCtrlKeys nav opts bs)"
  shows "\<exists>b\<in>set bs. originalKey b \<noteq> ck \<and> convertCommand (command b) = Some a \<and>
      normalizeKeySequence nav opts (originalKey b) = ''ctrl+'' @ r"
proof -
  from assms(1) have "map_of (rev (List.map_filter (lineEntry nav opts bs) bs)) (''ctrl+'' @ r) = Some a"
    by (simp only: table_last_wins)
  from entries_source [OF this] obtain b where b: "b \<in> set bs"
      "lineEntry nav opts bs b = Some (''ctrl+'' @ r, a)"
    by blast
  from lineEntry_cases [OF b(2)] have conv: "convertCommand (command b) = Some a"
    and "originalKey b \<notin> set (conflictingCtrlKeys nav opts bs)"
    and "normalizeKeySequence nav opts (originalKey b) = ''ctrl+'' @ r"
    by auto
  with assms(2) b(1) show ?thesis by metis
qed

lemma conflict_table:
  assumes "isMac nav" and "mapMetaToCtrl opts = Some False"
    and "\<lparr>originalKey = ''C-'' @ k, command = cmd\<rparr> \<in> set bs"
    and "bs = pre @ \<lparr>originalKey = ''M-'' @ k, command = cmd\<rparr> # post"
  shows
   "resolveConflictsAndBuild nav opts bs =
      resolveConflictsAndBuild nav opts (filter (\<lambda>b. originalKey b \<noteq> ''C-'' @ k) bs) \<and>
    (\<forall>b\<in>set bs. originalKey b = ''C-'' @ k \<longrightarrow> lineEntry nav opts bs b = None) \<and>
    lineEntry nav opts bs \<lparr>originalKey = ''M-'' @ k, command = cmd\<rparr> =
      map_option (\<lambda>a. (''meta+'' @ normalizeKeySequence nav opts k, a)) (convertCommand cmd) \<and>
    (\<forall>a. convertCommand cmd = Some a \<and>
         (\<forall>b\<in>set post. \<forall>a'.
            lineEntry nav opts bs b = Some (''meta+'' @ normalizeKeySequence nav opts k, a') \<longrightarrow> a' = a) \<longrightarrow>
       map_of (resolveConflictsAndBuild nav opts bs) (''meta+'' @ normalizeKeySequence nav opts k) = Some a) \<and>
    (convertCommand cmd \<noteq> None \<longrightarrow>
       map_of (resolveConflictsAndBuild nav opts bs) (''meta+'' @ normalizeKeySequence nav opts k) \<noteq> None) \<and>
    (convertCommand cmd = None \<and>
       (\<forall>b\<in>set (pre @ post). \<forall>a'.
          lineEntry nav opts bs b \<noteq> Some (''meta+'' @ normalizeKeySequence nav opts k, a')) \<longrightarrow>
       map_of (resolveConflictsAndBuild nav opts bs) (''meta+'' @ normalizeKeySequence nav opts k) = None) \<and>
    (\<forall>a'. map_of (resolveConflictsAndBuild nav opts bs) (''ctrl+'' @ normalizeKeySequence nav opts k) = Some a' \<longrightarrow>
       (\<exists>b\<in>set bs. originalKey b \<noteq> ''C-'' @ k \<and> convertCommand (command b) = Some a' \<and>
          normalizeKeySequence nav opts (originalKey b) = ''ctrl+'' @ normalizeKeySequence nav opts k))"
proof -
  let ?c = "conflictingCtrlKeys nav opts bs" and ?p = "ctrlKeysToPromote nav opts bs"
  let ?keep = "\<lambda>b. originalKey b \<noteq> ''C-'' @ k"
  let ?meta = "\<lparr>originalKey = ''M-'' @ k, command = cmd\<rparr>"
  let ?K = "''meta+'' @ normalizeKeySequence nav opts k"
  have inbs: "?meta \<in> set bs"
    using assms(4) by simp
  have mode: "commandMode nav opts"
    using assms(1,2) by (simp add: commandMode_def)
  have meta: "k \<in> set (metaKeys bs)"
    using inbs by (force simp: metaKeys_member)
  have inC: "''C-'' @ k \<in> set ?c"
    using assms(3) inbs mode by (force simp: conflicting_member)
  have notP: "''C-'' @ k \<notin> set ?p"
    using meta by (simp add: promote_member)
  have dropped: "\<forall>b\<in>set bs. \<not> ?keep b \<longrightarrow> buildEntry nav opts ?c ?p b = None"
    using inC notP by (simp add: buildEntry_def)
  have notM: "\<not> startsWith (''C-'' @ k) ''M-''"
    by simp
  have same: "\<forall>b\<in>set (filter ?keep bs).
      buildEntry nav opts ?c ?p b =
      buildEntry nav opts (conflictingCtrlKeys nav opts (filter ?keep bs))
        (ctrlKeysToPromote nav opts (filter ?keep bs)) b"
  proof
    fix b
    assume "b \<in> set (filter ?keep bs)"
    then have ne: "originalKey b \<noteq> ''C-'' @ k" by simp
    show "buildEntry nav opts ?c ?p b =
      buildEntry nav opts (conflictingCtrlKeys nav opts (filter ?keep bs))
        (ctrlKeysToPromote nav opts (filter ?keep bs)) b"
      unfolding buildEntry_def
      by (simp only: conflicting_filter [OF notM ne] promote_filter [OF notM ne])
  qed
  have 1: "resolveConflictsAndBuild nav opts bs = resolveConflictsAndBuild nav opts (filter ?keep bs)"
    unfolding resolveConflictsAndBuild_def
    using buildMappings_filter [OF dropped] buildMappings_cong [OF same] by simp
  have 2: "\<forall>b\<in>set bs. originalKey b = ''C-'' @ k \<longrightarrow> lineEntry nav opts bs b = None"
    using dropped by (simp add: lineEntry_def)
  have notC: "''M-'' @ k \<notin> set ?c"
    by (simp add: conflicting_member)
  have norm: "normalizeKeySequence nav opts (''M-'' @ k) = ?K"
    using assms(1,2) normalize_M [of nav opts k] by simp
  have 3: "lineEntry nav opts bs ?meta = map_option (\<lambda>a. (?K, a)) (convertCommand cmd)"
    using notC norm by (cases "convertCommand cmd") (simp_all add: lineEntry_def buildEntry_def)
  have 4: "map_of (resolveConflictsAndBuild nav opts bs) ?K = Some a"
    if "convertCommand cmd = Some a"
      and "\<forall>b\<in>set post. \<forall>a'. lineEntry nav opts bs b = Some (?K, a') \<longrightarrow> a' = a" for a
  proof -
    from 3 that(1) have "lineEntry nav opts bs ?meta = Some (?K, a)" by simp
    from entries_at_position [of "lineEntry nav opts bs", OF this that(2), of pre]
    show ?thesis
      unfolding table_last_wins assms(4) [symmetric] .
  qed
  have present: "map_of (resolveConflictsAndBuild nav opts bs) ?K \<noteq> None"
    if "convertCommand cmd \<noteq> None"
  proof -
    from that obtain a where "convertCommand cmd = Some a" by blast
    with 3 have "lineEntry nav opts bs ?meta = Some (?K, a)" by simp
    from entries_present [of "lineEntry nav opts bs", OF this, of pre post]
    show ?thesis
      unfolding table_last_wins assms(4) [symmetric] .
  qed
  have 5: "map_of (resolveConflictsAndBuild nav opts bs) ?K = None"
    if "convertCommand cmd = None"
      and "\<forall>b\<in>set (pre @ post). \<forall>a'. lineEntry nav opts bs b \<noteq> Some (?K, a')"
  proof -
    from 3 that(1) have "lineEntry nav opts bs ?meta = None" by simp
    with that(2) have "\<forall>b\<in>set bs. \<forall>a'. lineEntry nav opts bs b \<noteq> Some (?K, a')"
      unfolding assms(4) by auto
    from entries_absent [OF this] show ?thesis
      unfolding table_last_wins .
  qed
  have 6: "\<exists>b\<in>set bs. originalKey b \<noteq> ''C-'' @ k \<and> convertCommand (command b) = Some a' \<and>
          normalizeKeySequence nav opts (originalKey b) = ''ctrl+'' @ normalizeKeySequence nav opts k"
    if "map_of (resolveConflictsAndBuild nav opts bs) (''ctrl+'' @ normalizeKeySequence nav opts k) = Some a'"
    for a'
    using ctrl_entry_source [OF that inC] .
  from 1 2 3 4 present 5 6 show ?thesis by blast
qed

text \<open>
  Claim C4 (amended). On the Mac with \<open>mapMetaToCtrl = false\<close>, whenever a \<open>C-key\<close> line and
  an \<open>M-key\<close> line of the file carry the same command, every \<open>C-key\<close> line is dropped (it
  stores nothing, and the table is the one built without these lines) and the \<open>M-key\<close>
  line is stored under \<open>meta+\<close> followed by the normalized key, with the command's action.
  The table holds, under every key, what the last line stored there: it maps that
  \<open>meta+\<close> key to the command's action when the command is supported and every later
  line stored under the same key has the same action; it has the key whenever the command
  is supported; with an unsupported command the line stores nothing. An entry under
  \<open>ctrl+\<close> and the normalized key can only come from a supported line with another key
  specification that normalizes to it. In particular the two lines
  \<^verbatim>\<open>\bind "C-b" "font-bold"\<close> and \<^verbatim>\<open>\bind "M-b" "font-bold"\<close> give the table with the single entry
  \<open>meta+b\<close>, mapped to the wrap action with \<open>**\<close> on both sides, and no \<open>ctrl+b\<close>.
\<close>

theorem mac_conflict_drops_ctrl_binding:
  assumes "isMac nav" and "mapMetaToCtrl opts = Some False"
    and "collectBindings (splitLines content) = bs"
    and "\<lparr>originalKey = ''C-'' @ k, command = cmd\<rparr> \<in> set bs"
    and "bs = pre @ \<lparr>originalKey = ''M-'' @ k, command = cmd\<rparr> # post"
  shows
   "parse nav opts content =
      resolveConflictsAndBuild nav opts (filter (\<lambda>b. originalKey b \<noteq> ''C-'' @ k) bs) \<and>
    (\<forall>K. map_of (parse nav opts content) K =
       map_of (rev (List.map_filter (lineEntry nav opts bs) bs)) K) \<and>
    (\<forall>b\<in>set bs. originalKey b = ''C-'' @ k \<longrightarrow> lineEntry nav opts bs b = None) \<and>
    lineEntry nav opts bs \<lparr>originalKey = ''M-'' @ k, command = cmd\<rparr> =
      map_option (\<lambda>a. (''meta+'' @ normalizeKeySequence nav opts k, a)) (convertCommand cmd) \<and>
    (\<forall>a. convertCommand cmd = Some a \<and>
         (\<forall>b\<in>set post. \<forall>a'.
            lineEntry nav opts bs b = Some (''meta+'' @ normalizeKeySequence nav opts k, a') \<longrightarrow> a' = a) \<longrightarrow>
       map_of (parse nav opts content) (''meta+'' @ normalizeKeySequence nav opts k) = Some a) \<and>
    (convertCommand cmd \<noteq> None \<longrightarrow>
       map_of (parse nav opts content) (''meta+'' @ normalizeKeySequence nav opts k) \<noteq> None) \<and>
    (convertCommand cmd = None \<and>
       (\<forall>b\<in>set (pre @ post). \<forall>a'.
          lineEntry nav opts bs b \<noteq> Some (''meta+'' @ normalizeKeySequence nav opts k, a')) \<longrightarrow>
       map_of (parse nav opts content) (''meta+'' @ normalizeKeySequence nav opts k) = None) \<and>
    (\<forall>a'. map_of (parse nav opts content) (''ctrl+'' @ normalizeKeySequence nav opts k) = Some a' \<longrightarrow>
       (\<exists>b\<in>set bs. originalKey b \<noteq> ''C-'' @ k \<and> convertCommand (command b) = Some a' \<and>
          normalizeKeySequence nav opts (originalKey b) = ''ctrl+'' @ normalizeKeySequence nav opts k)) \<and>
    parse (Some ''MacIntel'') macCommand
        (bindLine ''C-b'' ''font-bold'' @ [newline] @ bindLine ''M-b'' ''font-bold'') =
      [(''meta+b'', Wrap ''**'' ''**'')]"
proof -
  have table: "parse nav opts content = resolveConflictsAndBuild nav opts bs"
    using assms(3) by (simp add: parse_def)
  have wins: "\<forall>K. map_of (parse nav opts content) K =
       map_of (rev (List.map_filter (lineEntry nav opts bs) bs)) K"
    unfolding table by (simp add: table_last_wins)
  have particular: "parse (Some ''MacIntel'') macCommand
        (bindLine ''C-b'' ''font-bold'' @ [newline] @ bindLine ''M-b'' ''font-bold'') =
      [(''meta+b'', Wrap ''**'' ''**'')]"
    by (simp add: parse_eval)
  from conflict_table [OF assms(1,2,4,5)] wins particular show ?thesis
    unfolding table by blast
qed

theorem mac_conflict_drops_ctrl_binding_witness:
  "parse (Some ''MacIntel'') macCommand
      (bindLine ''C-b'' ''font-bold'' @ [newline] @ bindLine ''M-b'' ''font-bold'') =
    resolveConflictsAndBuild (Some ''MacIntel'') macCommand
      [\<lparr>originalKey = ''M-b'', command = ''font-bold''\<rparr>] \<and>
   map_of (parse (Some ''MacIntel'') macCommand
      (bindLine ''C-b'' ''font-bold'' @ [newline] @ bindLine ''M-b'' ''font-bold'')) ''meta+b'' =
    Some (Wrap ''**'' ''**'')"
proof -
  let ?content = "bindLine ''C-b'' ''font-bold'' @ [newline] @ bindLine ''M-b'' ''font-bold''"
  let ?ctrl = "\<lparr>originalKey = ''C-'' @ ''b'', command = ''font-bold''\<rparr>"
  let ?meta = "\<lparr>originalKey = ''M-'' @ ''b'', command = ''font-bold''\<rparr>"
  have 1: "isMac (Some ''MacIntel'')"
    by (simp add: isMac_def platformIsMac_def toUpperCase_def upperChar_def)
  have 2: "mapMetaToCtrl macCommand = Some False"
    by (simp add: macCommand_def)
  have 3: "collectBindings (splitLines ?content) = [?ctrl, ?meta]"
    by (simp add: bindings_eval)
  have 4: "?ctrl \<in> set [?ctrl, ?meta]"
    by simp
  have 5: "[?ctrl, ?meta] = [?ctrl] @ ?meta # []"
    by simp
  have 6: "convertCommand ''font-bold'' = Some (Wrap ''**'' ''**'')"
    by (simp add: convertCommand_def commandMappings_def)
  have 7: "normalizeKeySequence (Some ''MacIntel'') macCommand ''b'' = ''b''"
    by (simp add: normalizeKeySequence_def Let_def keyNames_def toLowerCase_def lowerChar_def)
  note general = mac_conflict_drops_ctrl_binding [OF 1 2 3 4 5]
  have "parse (Some ''MacIntel'') macCommand ?content =
      resolveConflictsAndBuild (Some ''MacIntel'') macCommand
        (filter (\<lambda>b. originalKey b \<noteq> ''C-'' @ ''b'') [?ctrl, ?meta])"
    using general by blast
  then have dropped: "parse (Some ''MacIntel'') macCommand ?content =
      resolveConflictsAndBuild (Some ''MacIntel'') macCommand
        [\<lparr>originalKey = ''M-b'', command = ''font-bold''\<rparr>]"
    by simp
  have "convertCommand ''font-bold'' = Some (Wrap ''**'' ''**'') \<and>
      (\<forall>b\<in>set []. \<forall>a'. lineEntry (Some ''MacIntel'') macCommand [?ctrl, ?meta] b =
          Some (''meta+'' @ normalizeKeySequence (Some ''MacIntel'') macCommand ''b'', a') \<longrightarrow>
          a' = Wrap ''**'' ''**'') \<longrightarrow>
      map_of (parse (Some ''MacIntel'') macCommand ?content)
        (''meta+'' @ normalizeKeySequence (Some ''MacIntel'') macCommand ''b'') =
      Some (Wrap ''**'' ''**'')"
    using general by blast
  with 6 have "map_of (parse (Some ''MacIntel'') macCommand ?content)
      (''meta+'' @ normalizeKeySequence (Some ''MacIntel'') macCommand ''b'') =
      Some (Wrap ''**'' ''**'')"
    by simp
  then have kept: "map_of (parse (Some ''MacIntel'') macCommand ?content) ''meta+b'' =
      Some (Wrap ''**'' ''**'')"
    by (simp add: 7)
  from dropped kept show ?thesis
    by (rule conjI)
qed

text \<open>
  The claim as first stated, for every file with both lines, fails in three ways: a later
  \<open>M-b\<close> line with another command replaces the action under \<open>meta+b\<close>; a \<open>C-B\<close> line in
  upper case puts \<open>ctrl+b\<close> into the table; and with a command that \<open>convertCommand\<close> does
  not know the table is empty.
\<close>

theorem conflict_config_without_meta_entry:
  "parse (Some ''MacIntel'') macCommand
      (bindLine ''C-b'' ''font-bold'' @ [newline] @ bindLine ''M-b'' ''font-bold'' @ [newline] @
       bindLine ''M-b'' ''font-emph'') =
     [(''meta+b'', Wrap ''*'' ''*'')] \<and>
   parse (Some ''MacIntel'') macCommand
      (bindLine ''C-b'' ''font-bold'' @ [newline] @ bindLine ''M-b'' ''font-bold'' @ [newline] @
       bindLine ''C-B'' ''font-emph'') =
     [(''meta+b'', Wrap ''**'' ''**''), (''ctrl+b'', Wrap ''*'' ''*'')] \<and>
   parse (Some ''MacIntel'') macCommand
      (bindLine ''C-b'' ''buffer-new'' @ [newline] @ bindLine ''M-b'' ''buffer-new'') = []"
  by (simp add: parse_eval)

section \<open>Promotion of common Ctrl bindings on the Mac\<close>

lemma promotion_table:
  assumes "isMac nav" and "mapMetaToCtrl opts = Some False"
    and "k \<in> set commonMacKeys"
    and "bs = pre @ \<lparr>originalKey = ''C-'' @ k, command = cmd\<rparr> # post"
    and "\<forall>b\<in>set bs. originalKey b \<noteq> ''M-'' @ k"
  shows
   "(\<forall>b\<in>set bs. originalKey b = ''C-'' @ k \<longrightarrow>
       lineEntry nav opts bs b = map_option (\<lambda>a. (''meta+'' @ k, a)) (convertCommand (command b))) \<and>
    (\<forall>a. convertCommand cmd = Some a \<and>
         (\<forall>b\<in>set post. \<forall>a'. lineEntry nav opts bs b = Some (''meta+'' @ k, a') \<longrightarrow> a' = a) \<longrightarrow>
       map_of (resolveConflictsAndBuild nav opts bs) (''meta+'' @ k) = Some a) \<and>
    (convertCommand cmd \<noteq> None \<longrightarrow>
       map_of (resolveConflictsAndBuild nav opts bs) (''meta+'' @ k) \<noteq> None) \<and>
    (convertCommand cmd = None \<and>
       (\<forall>b\<in>set (pre @ post). \<forall>a'. lineEntry nav opts bs b \<noteq> Some (''meta+'' @ k, a')) \<longrightarrow>
       map_of (resolveConflictsAndBuild nav opts bs) (''meta+'' @ k) = None) \<and>
    (\<forall>a'. map_of (resolveConflictsAndBuild nav opts bs) (''ctrl+'' @ k) = Some a' \<longrightarrow>
       (\<exists>b\<in>set bs. originalKey b \<noteq> ''C-'' @ k \<and> convertCommand (command b) = Some a' \<and>
          normalizeKeySequence nav opts (originalKey b) = ''ctrl+'' @ k))"
proof -
  let ?c = "conflictingCtrlKeys nav opts bs" and ?p = "ctrlKeysToPromote nav opts bs"
  let ?line = "\<lparr>originalKey = ''C-'' @ k, command = cmd\<rparr>"
  let ?K = "''meta+'' @ k"
  have mode: "commandMode nav opts"
    using assms(1,2) by (simp add: commandMode_def)
  have nometa: "k \<notin> set (metaKeys bs)"
    using assms(5) by (simp add: metaKeys_member)
  have mem: "''C-'' @ k \<in> originalKey ` set bs"
    unfolding assms(4) by force
  have inP: "''C-'' @ k \<in> set ?p"
    unfolding promote_member using mode mem nometa assms(3) by simp
  have inC: "''C-'' @ k \<in> set ?c"
    using inP by (rule promote_subset_conflicting)
  have 1: "\<forall>b\<in>set bs. originalKey b = ''C-'' @ k \<longrightarrow>
       lineEntry nav opts bs b = map_option (\<lambda>a. (?K, a)) (convertCommand (command b))"
  proof (intro ballI impI)
    fix b
    assume "b \<in> set bs" and key: "originalKey b = ''C-'' @ k"
    show "lineEntry nav opts bs b = map_option (\<lambda>a. (?K, a)) (convertCommand (command b))"
      using inP inC unfolding lineEntry_def buildEntry_def key
      by (cases "convertCommand (command b)") simp_all
  qed
  have line: "lineEntry nav opts bs ?line = map_option (\<lambda>a. (?K, a)) (convertCommand cmd)"
    using 1 unfolding assms(4) by simp
  have 2: "map_of (resolveConflictsAndBuild nav opts bs) ?K = Some a"
    if "convertCommand cmd = Some a"
      and "\<forall>b\<in>set post. \<forall>a'. lineEntry nav opts bs b = Some (?K, a') \<longrightarrow> a' = a" for a
  proof -
    from line that(1) have "lineEntry nav opts bs ?line = Some (?K, a)" by simp
    from entries_at_position [of "lineEntry nav opts bs", OF this that(2), of pre]
    show ?thesis
      unfolding table_last_wins assms(4) [symmetric] .
  qed
  have 3: "map_of (resolveConflictsAndBuild nav opts bs) ?K \<noteq> None"
    if "convertCommand cmd \<noteq> None"
  proof -
    from that obtain a where "convertCommand cmd = Some a" by blast
    with line have "lineEntry nav opts bs ?line = Some (?K, a)" by simp
    from entries_present [of "lineEntry nav opts bs", OF this, of pre post]
    show ?thesis
      unfolding table_last_wins assms(4) [symmetric] .
  qed
  have 4: "map_of (resolveConflictsAndBuild nav opts bs) ?K = None"
    if "convertCommand cmd = None"
      and "\<forall>b\<in>set (pre @ post). \<forall>a'. lineEntry nav opts bs b \<noteq> Some (?K, a')"
  proof -
    from line that(1) have "lineEntry nav opts bs ?line = None" by simp
    with that(2) have "\<forall>b\<in>set bs. \<forall>a'. lineEntry nav opts bs b \<noteq> Some (?K, a')"
      unfolding assms(4) by auto
    from entries_absent [OF this] show ?thesis
      unfolding table_last_wins .
  qed
  have 5: "\<exists>b\<in>set bs. originalKey b \<noteq> ''C-'' @ k \<and> convertCommand (command b) = Some a' \<and>
          normalizeKeySequence nav opts (originalKey b) = ''ctrl+'' @ k"
    if "map_of (resolveConflictsAndBuild nav opts bs) (''ctrl+'' @ k) = Some a'" for a'
    using ctrl_entry_source [OF that inC] .
  from 1 2 3 4 5 show ?thesis by blast
qed

text \<open>
  Claim C5 (amended). On the Mac with \<open>mapMetaToCtrl = false\<close>, a \<open>C-key\<close> line whose base
  key is one of m, n, o, p, q, r, s, t, w, in a file with no \<open>M-key\<close> line, is stored under
  \<open>meta+key\<close> with the command's action, and not under \<open>ctrl+key\<close>. The table holds, under
  every key, what the last line stored there: it maps \<open>meta+key\<close> to the command's action
  when the command is supported and every later line stored under \<open>meta+key\<close> has the same
  action; it has \<open>meta+key\<close> whenever the command is supported; with an unsupported command
  the line stores nothing. An entry \<open>ctrl+key\<close> can only come from a supported line with
  another key specification that normalizes to it. In particular the single line
  \<^verbatim>\<open>\bind "C-m" "math-mode"\<close> gives the table with the one entry \<open>meta+m\<close>, mapped to the
  wrap action with \<open>$\<close> on both sides, and no \<open>ctrl+m\<close>.
\<close>

theorem mac_promotes_common_ctrl_binding:
  assumes "isMac nav" and "mapMetaToCtrl opts = Some False"
    and "k \<in> set commonMacKeys"
    and "collectBindings (splitLines content) = bs"
    and "bs = pre @ \<lparr>originalKey = ''C-'' @ k, command = cmd\<rparr> # post"
    and "\<forall>b\<in>set bs. originalKey b \<noteq> ''M-'' @ k"
  shows
   "(\<forall>K. map_of (parse nav opts content) K =
       map_of (rev (List.map_filter (lineEntry nav opts bs) bs)) K) \<and>
    (\<forall>b\<in>set bs. originalKey b = ''C-'' @ k \<longrightarrow>
       lineEntry nav opts bs b = map_option (\<lambda>a. (''meta+'' @ k, a)) (convertCommand (command b))) \<and>
    (\<forall>a. convertCommand cmd = Some a \<and>
         (\<forall>b\<in>set post. \<forall>a'. lineEntry nav opts bs b = Some (''meta+'' @ k, a') \<longrightarrow> a' = a) \<longrightarrow>
       map_of (parse nav opts content) (''meta+'' @ k) = Some a) \<and>
    (convertCommand cmd \<noteq> None \<longrightarrow> map_of (parse nav opts content) (''meta+'' @ k) \<noteq> None) \<and>
    (convertCommand cmd = None \<and>
       (\<forall>b\<in>set (pre @ post). \<forall>a'. lineEntry nav opts bs b \<noteq> Some (''meta+'' @ k, a')) \<longrightarrow>
       map_of (parse nav opts content) (''meta+'' @ k) = None) \<and>
    (\<forall>a'. map_of (parse nav opts content) (''ctrl+'' @ k) = Some a' \<longrightarrow>
       (\<exists>b\<in>set bs. originalKey b \<noteq> ''C-'' @ k \<and> convertCommand (command b) = Some a' \<and>
          normalizeKeySequence nav opts (originalKey b) = ''ctrl+'' @ k)) \<and>
    parse (Some ''MacIntel'') macCommand (bindLine ''C-m'' ''math-mode'') =
      [(''meta+m'', Wrap ''$'' ''$'')]"
proof -
  have table: "parse nav opts content = resolveConflictsAndBuild nav opts bs"
    using assms(4) by (simp add: parse_def)
  have wins: "\<forall>K. map_of (parse nav opts content) K =
       map_of (rev (List.map_filter (lineEntry nav opts bs) bs)) K"
    unfolding table by (simp add: table_last_wins)
  have particular: "parse (Some ''MacIntel'') macCommand (bindLine ''C-m'' ''math-mode'') =
      [(''meta+m'', Wrap ''$'' ''$'')]"
    by (simp add: parse_eval)
  from promotion_table [OF assms(1,2,3,5,6)] wins particular show ?thesis
    unfolding table by blast
qed

theorem mac_promotes_common_ctrl_binding_witness:
  "map_of (parse (Some ''MacIntel'') macCommand (bindLine ''C-m'' ''math-mode'')) ''meta+m'' =
     Some (Wrap ''$'' ''$'') \<and>
   map_of (parse (Some ''MacIntel'') macCommand (bindLine ''C-m'' ''math-mode'')) ''ctrl+m'' = None"
proof -
  let ?content = "bindLine ''C-m'' ''math-mode''"
  let ?line = "\<lparr>originalKey = ''C-'' @ ''m'', command = ''math-mode''\<rparr>"
  have 1: "isMac (Some ''MacIntel'')"
    by (simp add: isMac_def platformIsMac_def toUpperCase_def upperChar_def)
  have 2: "mapMetaToCtrl macCommand = Some False"
    by (simp add: macCommand_def)
  have 3: "''m'' \<in> set commonMacKeys"
    by (simp add: commonMacKeys_def)
  have 4: "collectBindings (splitLines ?content) = [?line]"
    by (simp add: bindings_eval)
  have 5: "[?line] = [] @ ?line # []"
    and 6: "\<forall>b\<in>set [?line]. originalKey b \<noteq> ''M-'' @ ''m''"
    by simp_all
  have 7: "convertCommand ''math-mode'' = Some (Wrap ''$'' ''$'')"
    by (simp add: convertCommand_def commandMappings_def)
  note general = mac_promotes_common_ctrl_binding [OF 1 2 3 4 5 6]
  have "convertCommand ''math-mode'' = Some (Wrap ''$'' ''$'') \<and>
      (\<forall>b\<in>set []. \<forall>a'. lineEntry (Some ''MacIntel'') macCommand [?line] b =
          Some (''meta+'' @ ''m'', a') \<longrightarrow> a' = Wrap ''$'' ''$'') \<longrightarrow>
      map_of (parse (Some ''MacIntel'') macCommand ?content) (''meta+'' @ ''m'') =
      Some (Wrap ''$'' ''$'')"
    using general by blast
  with 7 have meta: "map_of (parse (Some ''MacIntel'') macCommand ?content) (''meta+'' @ ''m'') =
      Some (Wrap ''$'' ''$'')"
    by simp
  have "\<forall>a'. map_of (parse (Some ''MacIntel'') macCommand ?content) (''ctrl+'' @ ''m'') = Some a' \<longrightarrow>
       (\<exists>b\<in>set [?line]. originalKey b \<noteq> ''C-'' @ ''m'' \<and> convertCommand (command b) = Some a' \<and>
          normalizeKeySequence (Some ''MacIntel'') macCommand (originalKey b) = ''ctrl+'' @ ''m'')"
    using general by blast
  then have ctrl: "map_of (parse (Some ''MacIntel'') macCommand ?content) (''ctrl+'' @ ''m'') = None"
    by (cases "map_of (parse (Some ''MacIntel'') macCommand ?content) (''ctrl+'' @ ''m'')") auto
  from meta ctrl show ?thesis by simp
qed

text \<open>
  The claim as first stated, for every such line, fails in three ways: a \<open>C-M\<close> line in
  upper case puts \<open>ctrl+m\<close> into the table; with a command that \<open>convertCommand\<close> does not
  know the table has no \<open>meta+m\<close>; and a later line stored under \<open>meta+m\<close> (an \<open>M-M\<close> line,
  or a second \<open>C-m\<close> line) replaces the action of the first.
\<close>

theorem promoted_config_without_claimed_entries:
  "parse (Some ''MacIntel'') macCommand
      (bindLine ''C-m'' ''math-mode'' @ [newline] @ bindLine ''C-M'' ''font-bold'') =
     [(''meta+m'', Wrap ''$'' ''$''), (''ctrl+m'', Wrap ''**'' ''**'')] \<and>
   parse (Some ''MacIntel'') macCommand (bindLine ''C-m'' ''buffer-new'') = [] \<and>
   parse (Some ''MacIntel'') macCommand
      (bindLine ''C-m'' ''math-mode'' @ [newline] @ bindLine ''M-M'' ''font-bold'') =
     [(''meta+m'', Wrap ''**'' ''**'')] \<and>
   parse (Some ''MacIntel'') macCommand
      (bindLine ''C-m'' ''math-mode'' @ [newline] @ bindLine ''C-m'' ''font-bold'') =
     [(''meta+m'', Wrap ''**'' ''**'')]"
  by (simp add: parse_eval)

section \<open>The qualifier for no Shift, and the page keys\<close>

text \<open>
  Claim C6 (the code differs). The claim: \<open>normalizeKeySequence\<close> erases \<open>~S-\<close>, so the
  key specification \<open>~S-\<close> followed by \<open>k\<close> normalizes to the same string as \<open>k\<close>. The
  replacement of \<open>S-\<close> by \<open>shift+\<close> runs first and leaves nothing for the replacement of
  \<open>~S-\<close> to find: for every \<open>k\<close>, platform and options the result is \<open>~shift+\<close> followed
  by the normalized \<open>k\<close>, which differs from the normalized \<open>k\<close>.
\<close>

theorem not_shift_prefix_is_not_erased:
  "normalizeKeySequence nav opts (''~S-'' @ k) = ''~shift+'' @ normalizeKeySequence nav opts k \<and>
   normalizeKeySequence nav opts (''~S-'' @ k) \<noteq> normalizeKeySequence nav opts k \<and>
   normalizeKeySequence nav opts ''~S-a'' = ''~shift+a'' \<and>
   normalizeKeySequence nav opts ''a'' = ''a''"
  using normalize_notS [of nav opts k] normalize_notS [of nav opts "''a''"] normalize_names(8) [of nav opts]
  by simp

text \<open>
  Claim C7 (the code differs). The claim: \<open>Prior\<close> normalizes to \<open>pageup\<close>, \<open>Next\<close> to
  \<open>pagedown\<close> and \<open>Return\<close> to \<open>enter\<close>. The later replacements of \<open>up\<close> and \<open>down\<close> rewrite
  the \<open>pageup\<close> and \<open>pagedown\<close> just produced: on every platform and for all options
  \<open>Prior\<close> gives \<open>pagearrowup\<close> and \<open>Next\<close> gives \<open>pagearrowdown\<close>; \<open>Return\<close> gives \<open>enter\<close>.
\<close>

theorem prior_and_next_become_pagearrow:
  "normalizeKeySequence nav opts ''Prior'' = ''pagearrowup'' \<and>
   normalizeKeySequence nav opts ''Next'' = ''pagearrowdown'' \<and>
   normalizeKeySequence nav opts ''Return'' = ''enter''"
  by (simp add: normalize_names)

section \<open>Arrow and page keys in the parser and in the handler\<close>

lemma startsWith_length: "startsWith s p \<Longrightarrow> length p \<le> length s"
  by (auto simp: startsWith_iff)

lemma contains_length: "contains s p \<Longrightarrow> length p \<le> length s"
  by (induction s) (auto dest: startsWith_length)

lemma contains_append: "contains s p \<Longrightarrow> contains (t @ s) p"
  by (induction t) auto

lemma contains_self: "contains (p @ r) p"
proof (cases p)
  case Nil
  then show ?thesis by (cases r) simp_all
next
  case (Cons a p')
  have "startsWith ((a # p') @ r) (a # p')" by (rule startsWith_append)
  with Cons show ?thesis by simp
qed

lemma contains_ctrl: "n \<in> set browserNames \<Longrightarrow> contains (''ctrl+'' @ k) n = contains k n"
  by auto

lemma contains_alt: "n \<in> set browserNames \<Longrightarrow> contains (''alt+'' @ k) n = contains k n"
  by auto

lemma contains_shift: "n \<in> set browserNames \<Longrightarrow> contains (''shift+'' @ k) n = contains k n"
  by auto

lemma contains_meta: "n \<in> set browserNames \<Longrightarrow> contains (''meta+'' @ k) n = contains k n"
  by auto

lemma contains_modifiers:
  assumes "n \<in> set browserNames"
  shows "contains ((if c then ''ctrl+'' else []) @ (if a then ''alt+'' else []) @
      (if s then ''shift+'' else []) @ (if m then ''meta+'' else []) @ k) n = contains k n"
  using contains_ctrl [OF assms] contains_alt [OF assms] contains_shift [OF assms]
    contains_meta [OF assms]
  by (cases c; cases a; cases s; cases m) (simp_all only: if_True if_False append_Nil)

lemma keyNormalizations_short:
  assumes "map_of keyNormalizations k = Some v"
  shows "length v \<le> 5"
proof -
  have "\<forall>e\<in>set keyNormalizations. length (snd e) \<le> 5"
    by (simp add: keyNormalizations_def)
  moreover from assms have "(k, v) \<in> set keyNormalizations"
    by (rule map_of_SomeD)
  ultimately show ?thesis by force
qed

lemma codeToKey_short:
  assumes "map_of codeToKey c = Some v"
  shows "length v \<le> 5"
proof -
  have "\<forall>e\<in>set codeToKey. length (snd e) \<le> 5"
    by (simp add: codeToKey_def)
  moreover from assms have "(c, v) \<in> set codeToKey"
    by (rule map_of_SomeD)
  ultimately show ?thesis by force
qed

lemma browserNames_long: "n \<in> set browserNames \<Longrightarrow> 6 \<le> length n"
  by auto

lemma browserNames_normalized: "k \<in> set browserNames \<Longrightarrow> map_of keyNormalizations k \<noteq> None"
  by (auto simp: keyNormalizations_def)

lemma short_contains_none: "length k \<le> 5 \<Longrightarrow> n \<in> set browserNames \<Longrightarrow> \<not> contains k n"
  using contains_length browserNames_long by fastforce


lemma getKeyCombo_shape:
  assumes "getKeyCombo platform e = Some combo"
  obtains key2 where
    "combo = (if ctrlKey e then ''ctrl+'' else []) @ (if altKey e then ''alt+'' else []) @
       (if shiftKey e then ''shift+'' else []) @ (if metaKey e then ''meta+'' else []) @ key2"
    and "length key2 \<le> 5 \<or>
         (key2 = toLowerCase (key e) \<and> map_of keyNormalizations (toLowerCase (key e)) = None)"
proof -
  define key1 where "key1 =
    (if platformIsMac platform \<and> altKey e \<and> \<not> ctrlKey e \<and> \<not> metaKey e
     then (case map_of codeToKey (code e) of Some k \<Rightarrow> k | None \<Rightarrow> toLowerCase (key e))
     else toLowerCase (key e))"
  define key2 where "key2 = (case map_of keyNormalizations key1 of Some k \<Rightarrow> k | None \<Rightarrow> key1)"
  have key1: "length key1 \<le> 5 \<or> key1 = toLowerCase (key e)"
    unfolding key1_def by (auto split: option.splits dest: codeToKey_short)
  have key2: "length key2 \<le> 5 \<or>
         (key2 = toLowerCase (key e) \<and> map_of keyNormalizations (toLowerCase (key e)) = None)"
    unfolding key2_def using key1 by (auto split: option.splits dest: keyNormalizations_short)
  have "combo = join ''+'' (((if ctrlKey e then [''ctrl''] else []) @ (if altKey e then [''alt''] else []) @
       (if shiftKey e then [''shift''] else []) @ (if metaKey e then [''meta''] else [])) @ [key2])"
    using assms unfolding getKeyCombo_def Let_def key1_def [symmetric] key2_def [symmetric]
    by (simp split: if_splits)
  then have "combo = (if ctrlKey e then ''ctrl+'' else []) @ (if altKey e then ''alt+'' else []) @
       (if shiftKey e then ''shift+'' else []) @ (if metaKey e then ''meta+'' else []) @ key2"
    by (simp only: append_assoc join_parts)
  from this key2 show ?thesis by (rule that)
qed

lemma getKeyCombo_no_browserNames:
  assumes "toLowerCase (key e) \<in> set browserNames \<or>
           (\<forall>n\<in>set browserNames. \<not> contains (toLowerCase (key e)) n)"
    and "getKeyCombo platform e = Some combo" and "n \<in> set browserNames"
  shows "\<not> contains combo n"
proof -
  from assms(2) obtain key2 where combo:
    "combo = (if ctrlKey e then ''ctrl+'' else []) @ (if altKey e then ''alt+'' else []) @
       (if shiftKey e then ''shift+'' else []) @ (if metaKey e then ''meta+'' else []) @ key2"
    and key2: "length key2 \<le> 5 \<or>
         (key2 = toLowerCase (key e) \<and> map_of keyNormalizations (toLowerCase (key e)) = None)"
    by (rule getKeyCombo_shape)
  have "\<not> contains key2 n"
  proof (cases "length key2 \<le> 5")
    case True
    then show ?thesis using assms(3) by (rule short_contains_none)
  next
    case False
    with key2 have same: "key2 = toLowerCase (key e)"
      and none: "map_of keyNormalizations (toLowerCase (key e)) = None"
      by simp_all
    from none have "toLowerCase (key e) \<notin> set browserNames"
      using browserNames_normalized by blast
    with assms(1,3) same show ?thesis by blast
  qed
  then show ?thesis
    unfolding combo contains_modifiers [OF assms(3)] .
qed


lemma normalize_prefixes:
  assumes "set ps \<subseteq> {''C-'', ''S-'', ''M-'', ''A-''}"
  shows "\<exists>t. normalizeKeySequence nav opts (concat ps @ name) = t @ normalizeKeySequence nav opts name"
  using assms
proof (induction ps)
  case Nil
  then show ?case by simp
next
  case (Cons p ps)
  then obtain t where t: "normalizeKeySequence nav opts (concat ps @ name) =
      t @ normalizeKeySequence nav opts name"
    by auto
  from Cons.prems have "p = ''C-'' \<or> p = ''S-'' \<or> p = ''M-'' \<or> p = ''A-''"
    by simp
  then obtain u where "normalizeKeySequence nav opts (p @ concat ps @ name) =
      u @ normalizeKeySequence nav opts (concat ps @ name)"
    using normalize_C [of nav opts "concat ps @ name"] normalize_S [of nav opts "concat ps @ name"]
      normalize_M [of nav opts "concat ps @ name"] normalize_A [of nav opts "concat ps @ name"]
    by metis
  with t show ?case by simp
qed

lemma normalize_names_contain:
  assumes "name \<in> {''Left'', ''Right'', ''Up'', ''Down'', ''Prior'', ''Next''}"
  shows "\<exists>n\<in>set browserNames. contains (normalizeKeySequence nav opts name) n"
  using assms by (auto simp: normalize_names)

text \<open>
  Claim C3 (amended). The parser and the handler use different names for the arrow and
  page keys. For every keyboard event whose key, in lower case, is one of \<open>arrowleft\<close>,
  \<open>arrowright\<close>, \<open>arrowup\<close>, \<open>arrowdown\<close>, \<open>pageup\<close>, \<open>pagedown\<close>, or contains none of them
  (as every key a keyboard reports does), the key combination of \<open>getKeyCombo\<close> contains
  none of these six names. Every key that \<open>normalizeKeySequence\<close> produces from a key
  specification made of the prefixes \<open>C-\<close>, \<open>S-\<close>, \<open>M-\<close>, \<open>A-\<close> followed by \<open>Left\<close>, \<open>Right\<close>,
  \<open>Up\<close>, \<open>Down\<close>, \<open>Prior\<close> or \<open>Next\<close> contains one of them, so such an event never yields
  the table key of an arrow or page binding.
\<close>

theorem arrow_and_page_bindings_never_fire:
  assumes "toLowerCase (key e) \<in> set browserNames \<or>
           (\<forall>n\<in>set browserNames. \<not> contains (toLowerCase (key e)) n)"
    and "getKeyCombo platform e = Some combo"
  shows "(\<forall>n\<in>set browserNames. \<not> contains combo n) \<and>
         (\<forall>nav opts ps name.
            set ps \<subseteq> {''C-'', ''S-'', ''M-'', ''A-''} \<and>
            name \<in> {''Left'', ''Right'', ''Up'', ''Down'', ''Prior'', ''Next''} \<longrightarrow>
            (\<exists>n\<in>set browserNames. contains (normalizeKeySequence nav opts (concat ps @ name)) n) \<and>
            combo \<noteq> normalizeKeySequence nav opts (concat ps @ name))"
proof -
  have none: "\<forall>n\<in>set browserNames. \<not> contains combo n"
    using getKeyCombo_no_browserNames [OF assms] by blast
  have some: "\<exists>n\<in>set browserNames. contains (normalizeKeySequence nav opts (concat ps @ name)) n"
    if "set ps \<subseteq> {''C-'', ''S-'', ''M-'', ''A-''}"
      and "name \<in> {''Left'', ''Right'', ''Up'', ''Down'', ''Prior'', ''Next''}"
    for nav opts ps name
  proof -
    from normalize_prefixes [OF that(1)] obtain t where
      "normalizeKeySequence nav opts (concat ps @ name) = t @ normalizeKeySequence nav opts name"
      by blast
    moreover from normalize_names_contain [OF that(2)] obtain n where
      "n \<in> set browserNames" "contains (normalizeKeySequence nav opts name) n"
      by blast
    ultimately show ?thesis
      using contains_append by metis
  qed
  from none some show ?thesis by metis
qed


theorem arrow_and_page_bindings_never_fire_witness:
  "getKeyCombo ''Win32'' (ctrlKeyDown ''ArrowLeft'' ''ArrowLeft'') = Some ''ctrl+left'' \<and>
   \<not> contains ''ctrl+left'' ''arrowleft'' \<and>
   normalizeKeySequence (Some ''Win32'') macCommand ''C-Left'' = ''ctrl+arrowleft'' \<and>
   contains (normalizeKeySequence (Some ''Win32'') macCommand ''C-Left'') ''arrowleft'' \<and>
   ''ctrl+left'' \<noteq> normalizeKeySequence (Some ''Win32'') macCommand ''C-Left''"
proof -
  have combo: "getKeyCombo ''Win32'' (ctrlKeyDown ''ArrowLeft'' ''ArrowLeft'') = Some ''ctrl+left''"
    by (simp add: getKeyCombo_eval)
  have arrow: "toLowerCase (key (ctrlKeyDown ''ArrowLeft'' ''ArrowLeft'')) \<in> set browserNames \<or>
      (\<forall>n\<in>set browserNames. \<not> contains (toLowerCase (key (ctrlKeyDown ''ArrowLeft'' ''ArrowLeft''))) n)"
    by (simp add: ctrlKeyDown_def toLowerCase_def lowerChar_def)
  note general = arrow_and_page_bindings_never_fire [OF arrow combo]
  have spec: "set [''C-''] \<subseteq> {''C-'', ''S-'', ''M-'', ''A-''} \<and>
      ''Left'' \<in> {''Left'', ''Right'', ''Up'', ''Down'', ''Prior'', ''Next''}"
    by simp
  have 1: "\<not> contains ''ctrl+left'' ''arrowleft''"
    using general by simp
  have 2: "''ctrl+left'' \<noteq> normalizeKeySequence (Some ''Win32'') macCommand (concat [''C-''] @ ''Left'')"
    using general spec by blast
  have 3: "normalizeKeySequence (Some ''Win32'') macCommand ''C-Left'' = ''ctrl+arrowleft''"
    using normalize_C [of "Some ''Win32''" macCommand "''Left''"]
    by (simp add: normalize_names)
  show ?thesis
    using combo 1 2 3 by simp
qed

text \<open>
  The claim as first stated, for every keyboard event, fails: \<open>getKeyCombo\<close> looks the
  whole key up and rewrites nothing inside a longer text, so the event whose key is the
  text \<open>ctrl+ArrowLeft\<close> yields \<open>ctrl+arrowleft\<close>, the table key that the parser produces
  from \<open>C-Left\<close>, and the binding fires.
\<close>

theorem key_text_with_arrow_name_fires_binding:
  "parse (Some ''Win32'') \<lparr>overrideSystemShortcuts = None, mapMetaToCtrl = None\<rparr>
      (bindLine ''C-Left'' ''char-backward'') = [(''ctrl+arrowleft'', Navigation ''moveLeft'')] \<and>
   getKeyCombo ''Win32'' (keyDown ''ctrl+ArrowLeft'' []) = Some ''ctrl+arrowleft'' \<and>
   contains ''ctrl+arrowleft'' ''arrowleft'' \<and>
   normalizeKeySequence (Some ''Win32'') \<lparr>overrideSystemShortcuts = None, mapMetaToCtrl = None\<rparr>
      ''C-Left'' = ''ctrl+arrowleft'' \<and>
   emitted (processKeyEvent ''Win32'' (keyDown ''ctrl+ArrowLeft'' []) (0::nat)
      (setMappings (ArgMap [(''ctrl+arrowleft'', Navigation ''moveLeft'')]) initial)) =
     Some (Navigation ''moveLeft'', 0)"
proof (intro conjI)
  show "parse (Some ''Win32'') \<lparr>overrideSystemShortcuts = None, mapMetaToCtrl = None\<rparr>
      (bindLine ''C-Left'' ''char-backward'') = [(''ctrl+arrowleft'', Navigation ''moveLeft'')]"
    by (simp add: parse_eval)
  show "getKeyCombo ''Win32'' (keyDown ''ctrl+ArrowLeft'' []) = Some ''ctrl+arrowleft''"
    by (simp add: getKeyCombo_eval)
  show "contains ''ctrl+arrowleft'' ''arrowleft''"
    by simp
  show "normalizeKeySequence (Some ''Win32'')
      \<lparr>overrideSystemShortcuts = None, mapMetaToCtrl = None\<rparr> ''C-Left'' = ''ctrl+arrowleft''"
    by (simp add: parse_eval)
  show "emitted (processKeyEvent ''Win32'' (keyDown ''ctrl+ArrowLeft'' []) (0::nat)
      (setMappings (ArgMap [(''ctrl+arrowleft'', Navigation ''moveLeft'')]) initial)) =
     Some (Navigation ''moveLeft'', 0)"
    by (simp add: handler_eval getKeyCombo_eval)
qed

end
